theory Spec2Isabelle
  imports Complex_Main "HOL-Library.Log_Nat"
begin

section \<open>JavaScript numbers\<close>

text \<open>
  Every number of the program is a JavaScript \<^verbatim>\<open>number\<close>. The type \<open>jsnum\<close> keeps the
  special values of IEEE-754 (the two infinities and NaN) and their arithmetic, and takes
  the finite values as real numbers with exact results. The two zeros are one value;
  a division by zero treats the divisor as \<open>+0\<close>. Rounding is a separate step
  (\<open>binary64\<close> below), applied in the constructor of \<^verbatim>\<open>Ground\<close>, the one place where
  the shape of the result depends on it.
\<close>

datatype jsnum = Fin real | PInf | NInf | NaN

instantiation jsnum :: "{zero, one, plus, minus, uminus, times, inverse, ord}"
begin

definition zero_jsnum :: jsnum where "zero_jsnum = Fin 0"

definition one_jsnum :: jsnum where "one_jsnum = Fin 1"

fun uminus_jsnum :: "jsnum \<Rightarrow> jsnum" where
  "uminus_jsnum (Fin a) = Fin (- a)"
| "uminus_jsnum PInf = NInf"
| "uminus_jsnum NInf = PInf"
| "uminus_jsnum NaN = NaN"

fun plus_jsnum :: "jsnum \<Rightarrow> jsnum \<Rightarrow> jsnum" where
  "plus_jsnum (Fin a) (Fin b) = Fin (a + b)"
| "plus_jsnum NaN _ = NaN"
| "plus_jsnum _ NaN = NaN"
| "plus_jsnum PInf NInf = NaN"
| "plus_jsnum NInf PInf = NaN"
| "plus_jsnum PInf _ = PInf"
| "plus_jsnum _ PInf = PInf"
| "plus_jsnum NInf _ = NInf"
| "plus_jsnum _ NInf = NInf"

definition minus_jsnum :: "jsnum \<Rightarrow> jsnum \<Rightarrow> jsnum" where
  "minus_jsnum a b = a + (- b)"

fun times_jsnum :: "jsnum \<Rightarrow> jsnum \<Rightarrow> jsnum" where
  "times_jsnum (Fin a) (Fin b) = Fin (a * b)"
| "times_jsnum NaN _ = NaN"
| "times_jsnum _ NaN = NaN"
| "times_jsnum (Fin a) PInf = (if a = 0 then NaN else if 0 < a then PInf else NInf)"
| "times_jsnum (Fin a) NInf = (if a = 0 then NaN else if 0 < a then NInf else PInf)"
| "times_jsnum PInf (Fin b) = (if b = 0 then NaN else if 0 < b then PInf else NInf)"
| "times_jsnum NInf (Fin b) = (if b = 0 then NaN else if 0 < b then NInf else PInf)"
| "times_jsnum PInf PInf = PInf"
| "times_jsnum PInf NInf = NInf"
| "times_jsnum NInf PInf = NInf"
| "times_jsnum NInf NInf = PInf"

fun divide_jsnum :: "jsnum \<Rightarrow> jsnum \<Rightarrow> jsnum" where
  "divide_jsnum (Fin a) (Fin b) =
     (if b = 0 then (if a = 0 then NaN else if 0 < a then PInf else NInf)
      else Fin (a / b))"
| "divide_jsnum NaN _ = NaN"
| "divide_jsnum _ NaN = NaN"
| "divide_jsnum (Fin a) PInf = Fin 0"
| "divide_jsnum (Fin a) NInf = Fin 0"
| "divide_jsnum PInf (Fin b) = (if b < 0 then NInf else PInf)"
| "divide_jsnum NInf (Fin b) = (if b < 0 then PInf else NInf)"
| "divide_jsnum PInf PInf = NaN"
| "divide_jsnum PInf NInf = NaN"
| "divide_jsnum NInf PInf = NaN"
| "divide_jsnum NInf NInf = NaN"

definition inverse_jsnum :: "jsnum \<Rightarrow> jsnum" where
  "inverse_jsnum a = Fin 1 div a"

fun less_eq_jsnum :: "jsnum \<Rightarrow> jsnum \<Rightarrow> bool" where
  "less_eq_jsnum (Fin a) (Fin b) = (a \<le> b)"
| "less_eq_jsnum NaN _ = False"
| "less_eq_jsnum _ NaN = False"
| "less_eq_jsnum NInf _ = True"
| "less_eq_jsnum _ PInf = True"
| "less_eq_jsnum PInf _ = False"
| "less_eq_jsnum _ NInf = False"

fun less_jsnum :: "jsnum \<Rightarrow> jsnum \<Rightarrow> bool" where
  "less_jsnum (Fin a) (Fin b) = (a < b)"
| "less_jsnum NaN _ = False"
| "less_jsnum _ NaN = False"
| "less_jsnum PInf _ = False"
| "less_jsnum _ NInf = False"
| "less_jsnum NInf _ = True"
| "less_jsnum _ PInf = True"

instance ..

end

instance jsnum :: numeral
proof
  fix a b c :: jsnum
  show "a + b + c = a + (b + c)"
    by (cases a; cases b; cases c) simp_all
qed

text \<open>An array length or a loop counter as a number.\<close>

definition of_count :: "nat \<Rightarrow> jsnum" where
  "of_count n = Fin (real n)"

text \<open>\<^verbatim>\<open>Math.sqrt\<close>, \<^verbatim>\<open>Math.max\<close>, \<^verbatim>\<open>Math.pow(x, 2)\<close>, \<^verbatim>\<open>Math.cos\<close>, \<^verbatim>\<open>Math.sin\<close>,
  \<^verbatim>\<open>Math.PI\<close>.\<close>

fun Math_sqrt :: "jsnum \<Rightarrow> jsnum" where
  "Math_sqrt (Fin a) = (if a < 0 then NaN else Fin (sqrt a))"
| "Math_sqrt PInf = PInf"
| "Math_sqrt NInf = NaN"
| "Math_sqrt NaN = NaN"

fun Math_max :: "jsnum \<Rightarrow> jsnum \<Rightarrow> jsnum" where
  "Math_max NaN _ = NaN"
| "Math_max _ NaN = NaN"
| "Math_max a b = (if a \<le> b then b else a)"

definition Math_pow2 :: "jsnum \<Rightarrow> jsnum" where
  "Math_pow2 a = a * a"

fun Math_cos :: "jsnum \<Rightarrow> jsnum" where
  "Math_cos (Fin a) = Fin (cos a)"
| "Math_cos _ = NaN"

fun Math_sin :: "jsnum \<Rightarrow> jsnum" where
  "Math_sin (Fin a) = Fin (sin a)"
| "Math_sin _ = NaN"

definition Math_PI :: jsnum where
  "Math_PI = Fin pi"

text \<open>The operand of \<^verbatim>\<open>a || b\<close> and of \<^verbatim>\<open>if (a)\<close>: a number is falsy when it is zero or NaN.\<close>

definition falsy :: "jsnum \<Rightarrow> bool" where
  "falsy a = (a = Fin 0 \<or> a = NaN)"

section \<open>Rounding to binary64\<close>

text \<open>
  The value a finite result has as an IEEE-754 binary64 number: the nearest number with a
  53-bit significand and an exponent from \<open>-1074\<close> upwards, ties to the even significand,
  and an infinity from \<open>2^1024\<close> on. \<open>ilog2 x\<close> is the exponent \<open>e\<close> with
  \<open>2^e \<le> x < 2^(e+1)\<close> of a positive \<open>x\<close>.
\<close>

definition pow2 :: "int \<Rightarrow> real" where
  "pow2 k = (if 0 \<le> k then 2 ^ nat k else 1 / 2 ^ nat (- k))"

definition ilog2 :: "real \<Rightarrow> int" where
  "ilog2 x =
     (if 1 \<le> x then bitlen \<lfloor>x\<rfloor> - 1
      else let k = bitlen \<lfloor>1 / x\<rfloor> - 1 in if x * 2 ^ nat k = 1 then - k else - k - 1)"

definition round_half_even :: "real \<Rightarrow> int" where
  "round_half_even s =
     (let f = \<lfloor>s\<rfloor>; r = s - of_int f
      in if r < 1 / 2 then f else if 1 / 2 < r then f + 1 else if even f then f else f + 1)"

definition round64 :: "real \<Rightarrow> jsnum" where
  "round64 x =
     (if x = 0 then Fin 0
      else
        let a = \<bar>x\<bar>;
            u = max (ilog2 a - 52) (- 1074);
            v = of_int (round_half_even (a / pow2 u)) * pow2 u
        in if 2 ^ 1024 \<le> v then (if 0 < x then PInf else NInf)
           else Fin (if 0 < x then v else - v))"

text \<open>The two ways to take the result of an operation: as it is, or rounded.\<close>

definition exact :: "jsnum \<Rightarrow> jsnum" where
  "exact a = a"

fun binary64 :: "jsnum \<Rightarrow> jsnum" where
  "binary64 (Fin x) = round64 x"
| "binary64 a = a"

section \<open>Arrays of numbers and errors\<close>

text \<open>
  Reading a JavaScript array beyond its end gives \<^verbatim>\<open>undefined\<close> (\<open>None\<close>); in arithmetic
  \<^verbatim>\<open>undefined\<close> is NaN, and as an argument of \<^verbatim>\<open>new Vector3(x, y, z)\<close> it is replaced
  by the default 0. Writing at the end of an array appends (the loops of the source
  write at most one place past the end).
\<close>

definition js_get :: "jsnum list \<Rightarrow> nat \<Rightarrow> jsnum option" where
  "js_get xs i = (if i < length xs then Some (xs ! i) else None)"

definition to_number :: "jsnum option \<Rightarrow> jsnum" where
  "to_number v = (case v of None \<Rightarrow> NaN | Some a \<Rightarrow> a)"

definition or_default :: "jsnum option \<Rightarrow> jsnum" where
  "or_default v = (case v of None \<Rightarrow> 0 | Some a \<Rightarrow> a)"

definition js_set :: "jsnum list \<Rightarrow> nat \<Rightarrow> jsnum \<Rightarrow> jsnum list" where
  "js_set xs i a = (if i < length xs then xs[i := a] else xs @ [a])"

datatype js_error = TypeError

section \<open>Vectors (three.js)\<close>

text \<open>
  \<^verbatim>\<open>THREE.Vector2\<close> and \<^verbatim>\<open>THREE.Vector3\<close> with the methods the source calls. The library
  is not part of the repository; the methods are written out with their documented
  meaning (\<^verbatim>\<open>normalize\<close> divides by \<^verbatim>\<open>length() || 1\<close>, as multiplication by the
  reciprocal).
\<close>

datatype Vector2 = Vector2 (v2x: jsnum) (v2y: jsnum)

datatype Vector3 = Vector3 (v3x: jsnum) (v3y: jsnum) (v3z: jsnum)

definition subVectors2 :: "Vector2 \<Rightarrow> Vector2 \<Rightarrow> Vector2" where
  "subVectors2 a b = Vector2 (v2x a - v2x b) (v2y a - v2y b)"

definition addVectors2 :: "Vector2 \<Rightarrow> Vector2 \<Rightarrow> Vector2" where
  "addVectors2 a b = Vector2 (v2x a + v2x b) (v2y a + v2y b)"

definition multiplyScalar2 :: "Vector2 \<Rightarrow> jsnum \<Rightarrow> Vector2" where
  "multiplyScalar2 v s = Vector2 (v2x v * s) (v2y v * s)"

definition length2 :: "Vector2 \<Rightarrow> jsnum" where
  "length2 v = Math_sqrt (v2x v * v2x v + v2y v * v2y v)"

definition normalize2 :: "Vector2 \<Rightarrow> Vector2" where
  "normalize2 v =
     (let l = length2 v in multiplyScalar2 v (1 / (if falsy l then 1 else l)))"

definition distanceToSquared :: "Vector2 \<Rightarrow> Vector2 \<Rightarrow> jsnum" where
  "distanceToSquared a b =
     (let dx = v2x a - v2x b; dy = v2y a - v2y b in dx * dx + dy * dy)"

definition distanceTo :: "Vector2 \<Rightarrow> Vector2 \<Rightarrow> jsnum" where
  "distanceTo a b = Math_sqrt (distanceToSquared a b)"

definition rotateAround :: "Vector2 \<Rightarrow> Vector2 \<Rightarrow> jsnum \<Rightarrow> Vector2" where
  "rotateAround v center angle =
     (let c = Math_cos angle; s = Math_sin angle;
          x = v2x v - v2x center; y = v2y v - v2y center
      in Vector2 (x * c - y * s + v2x center) (x * s + y * c + v2y center))"

definition subVectors :: "Vector3 \<Rightarrow> Vector3 \<Rightarrow> Vector3" where
  "subVectors a b = Vector3 (v3x a - v3x b) (v3y a - v3y b) (v3z a - v3z b)"

definition crossVectors :: "Vector3 \<Rightarrow> Vector3 \<Rightarrow> Vector3" where
  "crossVectors a b =
     Vector3 (v3y a * v3z b - v3z a * v3y b)
             (v3z a * v3x b - v3x a * v3z b)
             (v3x a * v3y b - v3y a * v3x b)"

definition dot :: "Vector3 \<Rightarrow> Vector3 \<Rightarrow> jsnum" where
  "dot a b = v3x a * v3x b + v3y a * v3y b + v3z a * v3z b"

definition multiplyScalar :: "Vector3 \<Rightarrow> jsnum \<Rightarrow> Vector3" where
  "multiplyScalar v s = Vector3 (v3x v * s) (v3y v * s) (v3z v * s)"

definition length3 :: "Vector3 \<Rightarrow> jsnum" where
  "length3 v = Math_sqrt (v3x v * v3x v + v3y v * v3y v + v3z v * v3z v)"

definition normalize :: "Vector3 \<Rightarrow> Vector3" where
  "normalize v =
     (let l = length3 v in multiplyScalar v (1 / (if falsy l then 1 else l)))"

definition addScaledVector :: "Vector3 \<Rightarrow> Vector3 \<Rightarrow> jsnum \<Rightarrow> Vector3" where
  "addScaledVector p v s =
     Vector3 (v3x p + v3x v * s) (v3y p + v3y v * s) (v3z p + v3z v * s)"

section \<open>Planes, rays and the camera (three.js)\<close>

text \<open>
  \<^verbatim>\<open>THREE.Plane\<close>: a normal and a constant, with \<^verbatim>\<open>setFromNormalAndCoplanarPoint\<close>,
  \<^verbatim>\<open>distanceToPoint\<close> (the signed distance) and \<^verbatim>\<open>projectPoint\<close> (the perpendicular
  foot). \<^verbatim>\<open>THREE.Ray\<close>: an origin and a direction.
\<close>

datatype Plane = Plane (normal: Vector3) (plane_constant: jsnum)

datatype Ray = Ray (ray_origin: Vector3) (ray_direction: Vector3)

datatype Sphere = Sphere (center: Vector3) (radius: jsnum)

definition setFromNormalAndCoplanarPoint :: "Vector3 \<Rightarrow> Vector3 \<Rightarrow> Plane" where
  "setFromNormalAndCoplanarPoint n point = Plane n (- dot point n)"

definition distanceToPoint :: "Plane \<Rightarrow> Vector3 \<Rightarrow> jsnum" where
  "distanceToPoint pl point = dot (normal pl) point + plane_constant pl"

definition projectPoint :: "Plane \<Rightarrow> Vector3 \<Rightarrow> Vector3" where
  "projectPoint pl point = addScaledVector point (normal pl) (- distanceToPoint pl point)"

datatype Euler = Euler jsnum jsnum jsnum

datatype Quaternion = Quaternion jsnum jsnum jsnum jsnum

datatype Matrix4 = Matrix4 (elements: "jsnum list")

definition identity :: Matrix4 where
  "identity = Matrix4 [1, 0, 0, 0,  0, 1, 0, 0,  0, 0, 1, 0,  0, 0, 0, 1]"

record Camera =
  cam_position :: Vector3
  cam_rotation :: Euler
  cam_quaternion :: Quaternion
  projectionMatrixInverse :: Matrix4

text \<open>
  The library calls whose results depend on code outside the repository are parameters
  of the model: \<^verbatim>\<open>Raycaster.setFromCamera\<close> (the ray through a device coordinate),
  \<^verbatim>\<open>Ray.intersectPlane\<close> and \<^verbatim>\<open>Ray.intersectSphere\<close> (\<open>None\<close> for \<^verbatim>\<open>null\<close>, in which
  case the target vector is left as it was), \<^verbatim>\<open>Vector3.applyQuaternion\<close>,
  \<^verbatim>\<open>Object3D.lookAt\<close> (the rotation of an object at a position that looks at a target),
  \<^verbatim>\<open>Object3D.worldToLocal\<close> (of an object with a position and a rotation),
  \<^verbatim>\<open>Matrix4.makeRotationFromEuler\<close> and \<^verbatim>\<open>Matrix4.invert\<close>.
\<close>

record Object3D =
  obj_position :: Vector3
  obj_rotation :: Euler

record Three =
  setFromCamera :: "Vector2 \<Rightarrow> Camera \<Rightarrow> Ray"
  intersectPlane :: "Ray \<Rightarrow> Plane \<Rightarrow> Vector3 option"
  intersectSphere :: "Ray \<Rightarrow> Sphere \<Rightarrow> Vector3 option"
  applyQuaternion :: "Vector3 \<Rightarrow> Quaternion \<Rightarrow> Vector3"
  lookAt :: "Vector3 \<Rightarrow> Vector3 \<Rightarrow> Euler"
  worldToLocal :: "Object3D \<Rightarrow> Vector3 \<Rightarrow> Vector3"
  makeRotationFromEuler :: "Euler \<Rightarrow> Matrix4"
  invert :: "Matrix4 \<Rightarrow> Matrix4"

text \<open>
  \<^verbatim>\<open>const intersection = new THREE.Vector3(); ray.intersectPlane(plane, intersection)\<close>:
  the value of \<open>intersection\<close> afterwards. A new vector is \<open>(0, 0, 0)\<close>.
\<close>

definition intersectPlane_into_new :: "Three \<Rightarrow> Ray \<Rightarrow> Plane \<Rightarrow> Vector3" where
  "intersectPlane_into_new three ray pl =
     (case intersectPlane three ray pl of None \<Rightarrow> Vector3 0 0 0 | Some p \<Rightarrow> p)"


section \<open>Ground: the constructor\<close>

text \<open>
  The fields of \<^verbatim>\<open>Ground\<close>; \<open>gindices\<close> is the index list the constructor hands to the
  geometry. (The position and normal attributes of the geometry and the edge mesh are
  derived from these by the renderer's side and are not kept.)
\<close>

record Ground =
  segments :: jsnum
  gvertices :: "jsnum list"
  gindices :: "jsnum list"

text \<open>
  The constructor of \<^verbatim>\<open>Ground\<close>. Every arithmetic result goes through \<open>rnd\<close>, which is
  \<open>exact\<close> or \<open>binary64\<close>. The two loops over the grid step a number by \<open>increment\<close>
  until it passes \<open>size / 2\<close>; they need not end (an increment of 0 or NaN, or one too small
  to change the counter), so the loops return an option: \<open>None\<close> when they run forever.
\<close>

partial_function (option) vertex_row ::
  "(jsnum \<Rightarrow> jsnum) \<Rightarrow> jsnum \<Rightarrow> jsnum \<Rightarrow> jsnum \<Rightarrow> jsnum \<Rightarrow> jsnum list \<Rightarrow> jsnum list option" where
  "vertex_row rnd size0 increment i j vs =
     (if j \<le> rnd (size0 / 2) then
        vertex_row rnd size0 increment i (rnd (j + increment)) (vs @ [i, 0, j])
      else Some vs)"

partial_function (option) vertex_rows ::
  "(jsnum \<Rightarrow> jsnum) \<Rightarrow> jsnum \<Rightarrow> jsnum \<Rightarrow> jsnum \<Rightarrow> jsnum list \<Rightarrow> jsnum list option" where
  "vertex_rows rnd size0 increment i vs =
     (if i \<le> rnd (size0 / 2) then
        Option.bind (vertex_row rnd size0 increment i (rnd (- size0 / 2)) vs)
          (\<lambda>vs'. vertex_rows rnd size0 increment (rnd (i + increment)) vs')
      else Some vs)"

definition convertRowColToIndex :: "(jsnum \<Rightarrow> jsnum) \<Rightarrow> jsnum \<Rightarrow> jsnum \<Rightarrow> jsnum \<Rightarrow> jsnum" where
  "convertRowColToIndex rnd segments0 row col = rnd (rnd (row * rnd (segments0 + 1)) + col)"

partial_function (option) index_row ::
  "(jsnum \<Rightarrow> jsnum) \<Rightarrow> jsnum \<Rightarrow> jsnum \<Rightarrow> jsnum \<Rightarrow> jsnum list \<Rightarrow> jsnum list option" where
  "index_row rnd segments0 i j ix =
     (if j < segments0 then
        index_row rnd segments0 i (rnd (j + 1))
          (ix @ [convertRowColToIndex rnd segments0 i j,
                 convertRowColToIndex rnd segments0 i (rnd (j + 1)),
                 convertRowColToIndex rnd segments0 (rnd (i + 1)) j]
              @ [convertRowColToIndex rnd segments0 (rnd (i + 1)) j,
                 convertRowColToIndex rnd segments0 i (rnd (j + 1)),
                 convertRowColToIndex rnd segments0 (rnd (i + 1)) (rnd (j + 1))])
      else Some ix)"

partial_function (option) index_rows ::
  "(jsnum \<Rightarrow> jsnum) \<Rightarrow> jsnum \<Rightarrow> jsnum \<Rightarrow> jsnum list \<Rightarrow> jsnum list option" where
  "index_rows rnd segments0 i ix =
     (if i < segments0 then
        Option.bind (index_row rnd segments0 i 0 ix)
          (\<lambda>ix'. index_rows rnd segments0 (rnd (i + 1)) ix')
      else Some ix)"

definition Ground_new :: "(jsnum \<Rightarrow> jsnum) \<Rightarrow> jsnum \<Rightarrow> jsnum \<Rightarrow> Ground option" where
  "Ground_new rnd size0 segments0 =
     (let increment = rnd (size0 / segments0)
      in Option.bind (vertex_rows rnd size0 increment (rnd (- size0 / 2)) [])
           (\<lambda>vs. Option.bind (index_rows rnd segments0 0 [])
              (\<lambda>ix. Some \<lparr> segments = segments0, gvertices = vs, gindices = ix \<rparr>)))"

text \<open>
  The mesh the constructor is meant to build, for \<open>n\<close> segments: coordinate \<open>m\<close> of the
  grid is \<open>-size/2 + m * (size/n)\<close>; the vertices are listed row by row with height 0, and
  every cell of the grid gives two triangles.
\<close>

definition grid_coord :: "real \<Rightarrow> nat \<Rightarrow> nat \<Rightarrow> real" where
  "grid_coord s n m = - s / 2 + real m * (s / real n)"

definition grid_vertices :: "real \<Rightarrow> nat \<Rightarrow> jsnum list" where
  "grid_vertices s n =
     concat (map (\<lambda>a. concat (map (\<lambda>b. [Fin (grid_coord s n a), 0, Fin (grid_coord s n b)])
                                  [0..<n + 1]))
                 [0..<n + 1])"

definition grid_cell :: "nat \<Rightarrow> nat \<Rightarrow> nat \<Rightarrow> jsnum list" where
  "grid_cell n a b =
     [of_count (a * (n + 1) + b), of_count (a * (n + 1) + (b + 1)), of_count ((a + 1) * (n + 1) + b),
      of_count ((a + 1) * (n + 1) + b), of_count (a * (n + 1) + (b + 1)),
      of_count ((a + 1) * (n + 1) + (b + 1))]"

definition grid_indices :: "nat \<Rightarrow> jsnum list" where
  "grid_indices n = concat (map (\<lambda>a. concat (map (grid_cell n a) [0..<n])) [0..<n])"

section \<open>Ground: reshapeGround and computeH\<close>

text \<open>
  \<^verbatim>\<open>computeH\<close>. The loop over \<open>i = 1, \<dots>, length - 1\<close> looks at the pair
  \<open>(silhouetteCurve[i-1], silhouetteCurve[i])\<close>: it is a recursion over the curve, two
  points at a time. With an empty curve \<open>origin\<close> is \<^verbatim>\<open>undefined\<close> and \<^verbatim>\<open>subVectors\<close>
  throws a TypeError.
\<close>

fun computeH_loop :: "jsnum \<Rightarrow> Vector3 \<Rightarrow> Vector3 \<Rightarrow> Vector3 \<Rightarrow> Vector3 list \<Rightarrow> jsnum" where
  "computeH_loop xTarget closestPoint origin planeX (p # q # rest) =
     (let xStart = dot (subVectors p origin) planeX;
          xEnd = dot (subVectors q origin) planeX
      in if xStart \<le> xTarget \<and> xTarget \<le> xEnd then
           let alpha = (xTarget - xStart) / (xEnd - xStart);
               yCurve = v3y p + alpha * (v3y q - v3y p)
           in yCurve - v3y closestPoint
         else if xEnd \<le> xTarget \<and> xTarget \<le> xStart then
           let alpha = (xTarget - xEnd) / (xStart - xEnd);
               yCurve = v3y q + alpha * (v3y p - v3y q)
           in yCurve - v3y closestPoint
         else computeH_loop xTarget closestPoint origin planeX (q # rest))"
| "computeH_loop xTarget closestPoint origin planeX _ = 0"

definition computeH :: "Vector3 \<Rightarrow> Vector3 list \<Rightarrow> Plane \<Rightarrow> js_error + jsnum" where
  "computeH closestPoint silhouetteCurve projectionPlane =
     (let planeY = Vector3 0 1 0;
          planeX = normalize (crossVectors planeY (normal projectionPlane))
      in case silhouetteCurve of
           [] \<Rightarrow> Inl TypeError
         | origin # _ \<Rightarrow>
             let xTarget = dot (subVectors closestPoint origin) planeX
             in Inr (computeH_loop xTarget closestPoint origin planeX silhouetteCurve))"

text \<open>The plane of step 1 of \<^verbatim>\<open>reshapeGround\<close> and the curve of step 2.\<close>

definition reshapePlane :: "Vector3 \<Rightarrow> Vector3 \<Rightarrow> Plane" where
  "reshapePlane groundStartPoint groundEndPoint =
     (let SE = subVectors groundEndPoint groundStartPoint;
          up = Vector3 0 1 0;
          n = normalize (crossVectors SE up)
      in setFromNormalAndCoplanarPoint n groundStartPoint)"

definition silhouetteCurve :: "Three \<Rightarrow> Camera \<Rightarrow> Plane \<Rightarrow> Vector2 list \<Rightarrow> Vector3 list" where
  "silhouetteCurve three camera pl screenPath0 =
     map (\<lambda>s. intersectPlane_into_new three
                 (setFromCamera three (Vector2 (v2x s) (v2y s)) camera) pl)
         screenPath0"

text \<open>The body of the loop of step 3, for vertex \<open>i\<close>, and the loop.\<close>

definition falloff :: "jsnum \<Rightarrow> jsnum" where
  "falloff d = Math_max 0 (1 - Math_pow2 (d / 5))"

definition reshape_vertex :: "Plane \<Rightarrow> Vector3 list \<Rightarrow> nat \<Rightarrow> jsnum list \<Rightarrow> js_error + jsnum list" where
  "reshape_vertex pl curve i vs =
     (let v = Vector3 (or_default (js_get vs (i * 3))) (or_default (js_get vs (i * 3 + 1)))
                      (or_default (js_get vs (i * 3 + 2)));
          closestPointOnPlane = projectPoint pl v;
          d = distanceToPoint pl v;
          w = falloff d
      in case computeH closestPointOnPlane curve pl of
           Inl e \<Rightarrow> Inl e
         | Inr h \<Rightarrow>
             if h \<noteq> 0 then
               Inr (js_set vs (i * 3 + 1) ((1 - w) * to_number (js_get vs (i * 3 + 1)) + w * h))
             else Inr vs)"

function reshape_loop :: "Plane \<Rightarrow> Vector3 list \<Rightarrow> nat \<Rightarrow> jsnum list \<Rightarrow> js_error + jsnum list" where
  "reshape_loop pl curve i vs =
     (if of_count i < of_count (length vs) / 3 then
        (case reshape_vertex pl curve i vs of
           Inl e \<Rightarrow> Inl e
         | Inr vs' \<Rightarrow> reshape_loop pl curve (i + 1) vs')
      else Inr vs)"
  by pat_completeness auto
termination
proof (relation "measure (\<lambda>(pl, curve, i, vs). length vs + 2 - 3 * i)")
  show "wf (measure (\<lambda>(pl, curve, i, vs). length vs + 2 - 3 * i))" by simp
next
  fix pl :: Plane and curve :: "Vector3 list" and i :: nat and vs vs' :: "jsnum list"
  assume guard: "of_count i < of_count (length vs) / 3"
    and step: "reshape_vertex pl curve i vs = Inr vs'"
  have "(3::jsnum) = 1 + 1 + 1"
    by (simp only: numeral_Bit1 numeral_One)
  then have "(3::jsnum) = Fin 3"
    by (simp add: one_jsnum_def)
  with guard have lt: "3 * i < length vs"
    by (simp add: of_count_def)
  have js: "length (js_set vs k a) \<le> length vs + 1" for k a
    by (simp add: js_set_def)
  have "length vs' \<le> length vs + 1"
  proof (cases "computeH (projectPoint pl (Vector3 (or_default (js_get vs (i * 3)))
                   (or_default (js_get vs (i * 3 + 1))) (or_default (js_get vs (i * 3 + 2))))) curve pl")
    case (Inl e)
    with step show ?thesis by (simp add: reshape_vertex_def Let_def)
  next
    case (Inr h)
    with step have "vs' = vs \<or> (\<exists>a. vs' = js_set vs (i * 3 + 1) a)"
      by (simp add: reshape_vertex_def Let_def split: if_splits) blast
    with js show ?thesis by auto
  qed
  with lt show "((pl, curve, i + 1, vs'), (pl, curve, i, vs))
        \<in> measure (\<lambda>(pl, curve, i, vs). length vs + 2 - 3 * i)"
    by simp
qed

declare reshape_loop.simps [simp del]

definition reshapeGround ::
  "Three \<Rightarrow> Vector2 list \<Rightarrow> Vector3 \<Rightarrow> Vector3 \<Rightarrow> Camera \<Rightarrow> Ground \<Rightarrow> js_error + Ground" where
  "reshapeGround three screenPath0 groundStartPoint groundEndPoint camera g =
     (let pl = reshapePlane groundStartPoint groundEndPoint;
          curve = silhouetteCurve three camera pl screenPath0
      in case reshape_loop pl curve 0 (gvertices g) of
           Inl e \<Rightarrow> Inl e
         | Inr vs \<Rightarrow> Inr (g\<lparr> gvertices := vs \<rparr>))"

text \<open>
  What \<^verbatim>\<open>computeH\<close> is meant to compute, in the words of its specification: with the
  plane-local X of a point taken along \<open>planeX\<close> from the first point of the curve, the
  first pair of consecutive curve points whose X interval brackets the target X (in
  ascending or in descending order) gives the height, by linear interpolation of the
  world Y at the bracketing fraction, less the Y of the closest point; no such pair
  gives 0.
\<close>

definition planeX_of :: "Plane \<Rightarrow> Vector3" where
  "planeX_of pl = normalize (crossVectors (Vector3 0 1 0) (normal pl))"

definition curveX :: "Vector3 \<Rightarrow> Vector3 \<Rightarrow> Vector3 \<Rightarrow> jsnum" where
  "curveX origin0 planeX p = dot (subVectors p origin0) planeX"

definition brackets :: "jsnum \<Rightarrow> jsnum \<Rightarrow> jsnum \<Rightarrow> bool" where
  "brackets xTarget a b = ((a \<le> xTarget \<and> xTarget \<le> b) \<or> (b \<le> xTarget \<and> xTarget \<le> a))"

definition interpolateY :: "jsnum \<Rightarrow> jsnum \<times> jsnum \<Rightarrow> jsnum \<times> jsnum \<Rightarrow> jsnum" where
  "interpolateY xTarget a b =
     snd a + ((xTarget - fst a) / (fst b - fst a)) * (snd b - snd a)"

definition computeH_spec :: "Vector3 \<Rightarrow> Vector3 list \<Rightarrow> Plane \<Rightarrow> jsnum" where
  "computeH_spec closestPoint curve pl =
     (let X = curveX (hd curve) (planeX_of pl);
          xTarget = X closestPoint
      in case find (\<lambda>(p, q). brackets xTarget (X p) (X q)) (zip curve (tl curve)) of
           None \<Rightarrow> 0
         | Some (p, q) \<Rightarrow>
             (if X p \<le> xTarget \<and> xTarget \<le> X q
              then interpolateY xTarget (X p, v3y p) (X q, v3y q)
              else interpolateY xTarget (X q, v3y q) (X p, v3y p))
             - v3y closestPoint)"

text \<open>The height a vertex gets in step 3, from the weight \<open>w\<close>, the value \<open>h\<close> of
  \<^verbatim>\<open>computeH\<close> and the old height.\<close>

definition blended_height :: "jsnum \<Rightarrow> jsnum \<Rightarrow> jsnum \<Rightarrow> jsnum" where
  "blended_height w h old = (if h \<noteq> 0 then (1 - w) * old + w * h else old)"

section \<open>Billboard: the ribbon mesh\<close>

text \<open>
  The fields of \<^verbatim>\<open>Billboard\<close>, with \<open>position\<close> and \<open>rotation\<close> of the
  \<^verbatim>\<open>Object3D\<close> it extends and the local matrix of its mesh. The position attribute and
  the index of the mesh geometry are copies of \<open>vertices\<close> and \<open>indices\<close>, made whenever
  these change, and are not kept apart.
\<close>

record Billboard =
  strokeWidth :: jsnum
  screenPath :: "Vector2 list"
  worldOrigin :: Vector3
  vertices :: "jsnum list"
  indices :: "jsnum list"
  position :: Vector3
  rotation :: Euler
  mesh_matrix :: Matrix4

text \<open>The constructor (the colour goes to the material only). A new \<^verbatim>\<open>Object3D\<close> is at
  the origin, unrotated, and a new mesh has the identity as its matrix.\<close>

definition Billboard_new :: "Vector2 \<Rightarrow> Vector3 \<Rightarrow> jsnum \<Rightarrow> Billboard" where
  "Billboard_new deviceCoords worldOrigin0 strokeWidth0 =
     \<lparr> strokeWidth = strokeWidth0,
       screenPath = [Vector2 (v2x deviceCoords) (v2y deviceCoords)],
       worldOrigin = Vector3 (v3x worldOrigin0) (v3y worldOrigin0) (v3z worldOrigin0),
       vertices = [v2x deviceCoords, v2y deviceCoords, - Fin 0.999,
                   v2x deviceCoords, v2y deviceCoords, - Fin 0.999],
       indices = [],
       position = Vector3 0 0 0,
       rotation = Euler 0 0 0,
       mesh_matrix = identity \<rparr>"

text \<open>
  \<^verbatim>\<open>addNewPoint\<close>. Reading \<^verbatim>\<open>screenPath[length - 1]\<close> of an empty path gives
  \<^verbatim>\<open>undefined\<close>, and \<^verbatim>\<open>distanceTo(undefined)\<close> throws a TypeError.
\<close>

definition addNewPoint :: "Vector2 \<Rightarrow> Billboard \<Rightarrow> js_error + Billboard" where
  "addNewPoint deviceCoords b =
     (if screenPath b = [] then Inl TypeError
      else
        let newPoint = Vector2 (v2x deviceCoords) (v2y deviceCoords);
            endPoint = last (screenPath b)
        in if strokeWidth b / 2 < distanceTo newPoint endPoint then
             let strokeVector =
                   multiplyScalar2
                     (rotateAround (normalize2 (subVectors2 newPoint endPoint))
                        (Vector2 0 0) (Math_PI / 2))
                     (strokeWidth b / 2);
                 vertex1 = subVectors2 newPoint strokeVector;
                 vertex2 = addVectors2 newPoint strokeVector;
                 nextIndex = of_count (length (vertices b)) / 3
             in Inr (b\<lparr> vertices := vertices b
                          @ [v2x vertex1, v2y vertex1, - Fin 0.999]
                          @ [v2x vertex2, v2y vertex2, - Fin 0.999],
                        indices := indices b
                          @ [nextIndex, nextIndex + 1, nextIndex - 2]
                          @ [nextIndex - 1, nextIndex - 2, nextIndex + 1],
                        screenPath := screenPath b @ [newPoint] \<rparr>)
           else Inr b)"

text \<open>A sequence of calls; an exception ends it.\<close>

fun addNewPoints :: "Vector2 list \<Rightarrow> Billboard \<Rightarrow> js_error + Billboard" where
  "addNewPoints [] b = Inr b"
| "addNewPoints (p # ps) b =
     (case addNewPoint p b of Inl e \<Rightarrow> Inl e | Inr b' \<Rightarrow> addNewPoints ps b')"

text \<open>
  The bookkeeping of the ribbon, with \<open>n\<close> the number of accepted points: \<open>2n\<close> vertices of
  three numbers each, \<open>2(n - 1)\<close> triangles of three indices each, and every index the
  number of a vertex that is present.
\<close>

definition ribbon_inv :: "Billboard \<Rightarrow> bool" where
  "ribbon_inv b =
     (screenPath b \<noteq> [] \<and>
      length (vertices b) = 3 * (2 * length (screenPath b)) \<and>
      length (indices b) = 3 * (2 * (length (screenPath b) - 1)) \<and>
      (\<forall>i \<in> set (indices b). \<exists>k. i = of_count k \<and> k < 2 * length (screenPath b)))"

section \<open>Billboard: the four projections\<close>

text \<open>
  The loop shared by \<^verbatim>\<open>projectToWorld\<close>, \<^verbatim>\<open>projectToBillboard\<close> and \<^verbatim>\<open>projectToSky\<close>:
  for every \<open>i\<close> below \<open>vertices.length / 3\<close>, the point \<open>(vertices[3i], vertices[3i+1])\<close>
  goes through the projection \<open>f\<close> of the mode and the three coordinates of the result
  are written back.
\<close>

function project_loop :: "(Vector2 \<Rightarrow> Vector3) \<Rightarrow> nat \<Rightarrow> jsnum list \<Rightarrow> jsnum list" where
  "project_loop f i vs =
     (if of_count i < of_count (length vs) / 3 then
        let point = Vector2 (to_number (js_get vs (i * 3))) (to_number (js_get vs (i * 3 + 1)));
            p = f point
        in project_loop f (i + 1)
             (js_set (js_set (js_set vs (i * 3) (v3x p)) (i * 3 + 1) (v3y p)) (i * 3 + 2) (v3z p))
      else vs)"
  by pat_completeness auto
termination
proof (relation "measure (\<lambda>(f, i, vs). length vs + 2 - 3 * i)")
  show "wf (measure (\<lambda>(f, i, vs). length vs + 2 - 3 * i))" by simp
next
  fix f :: "Vector2 \<Rightarrow> Vector3" and i :: nat and vs :: "jsnum list" and point p
  assume guard: "of_count i < of_count (length vs) / 3"
  have "(3::jsnum) = 1 + 1 + 1"
    by (simp only: numeral_Bit1 numeral_One)
  then have "(3::jsnum) = Fin 3"
    by (simp add: one_jsnum_def)
  with guard have lt: "3 * i < length vs"
    by (simp add: of_count_def)
  have "length (js_set (js_set (js_set vs (i * 3) (v3x p)) (i * 3 + 1) (v3y p)) (i * 3 + 2) (v3z p))
        \<le> max (length vs) (3 * i + 3)"
    using lt by (simp add: js_set_def)
  with lt show "((f, i + 1,
           js_set (js_set (js_set vs (i * 3) (v3x p)) (i * 3 + 1) (v3y p)) (i * 3 + 2) (v3z p)),
          (f, i, vs)) \<in> measure (\<lambda>(f, i, vs). length vs + 2 - 3 * i)"
    by (simp add: max_def split: if_splits)
qed

declare project_loop.simps [simp del]


definition projectToWorld :: "Three \<Rightarrow> Camera \<Rightarrow> Billboard \<Rightarrow> Billboard" where
  "projectToWorld three camera b =
     (if of_count (length (vertices b)) < 3 then b
      else
        let planeNormal = applyQuaternion three (Vector3 0 0 (- 1)) (cam_quaternion camera);
            projectionPlane = setFromNormalAndCoplanarPoint planeNormal (worldOrigin b);
            position1 = worldOrigin b;
            cameraOnGround = Vector3 (v3x (cam_position camera)) 0 (v3z (cam_position camera));
            rotation1 = lookAt three position1 cameraOnGround;
            matrix1 = invert three (makeRotationFromEuler three rotation1)
        in b\<lparr> position := position1,
              rotation := rotation1,
              mesh_matrix := matrix1,
              vertices :=
                project_loop
                  (\<lambda>point. subVectors
                     (intersectPlane_into_new three (setFromCamera three point camera) projectionPlane)
                     position1)
                  0 (vertices b) \<rparr>)"



section \<open>Library instances and inputs for running the model\<close>

text \<open>
  To run the model on concrete inputs the library parameters need values. This instance
  has the ray--plane intersection as three.js computes it (\<^verbatim>\<open>Ray.distanceToPlane\<close>,
  \<^verbatim>\<open>Ray.at\<close>), and a camera that looks down the negative z axis from \<open>z = 50\<close> and
  maps the device square to a 20 by 20 window (an orthographic camera); nothing is ever
  rotated.
\<close>

definition distanceToPlane :: "Ray \<Rightarrow> Plane \<Rightarrow> jsnum option" where
  "distanceToPlane ray pl =
     (let denominator = dot (normal pl) (ray_direction ray)
      in if denominator = 0 then
           (if distanceToPoint pl (ray_origin ray) = 0 then Some 0 else None)
         else
           let t = - (dot (ray_origin ray) (normal pl) + plane_constant pl) / denominator
           in if 0 \<le> t then Some t else None)"

definition ray_at :: "Ray \<Rightarrow> jsnum \<Rightarrow> Vector3" where
  "ray_at ray t = addScaledVector (ray_origin ray) (ray_direction ray) t"

definition ray_intersectPlane :: "Ray \<Rightarrow> Plane \<Rightarrow> Vector3 option" where
  "ray_intersectPlane ray pl = map_option (ray_at ray) (distanceToPlane ray pl)"

definition ortho_three :: Three where
  "ortho_three =
     \<lparr> setFromCamera = (\<lambda>p camera. Ray (Vector3 (v2x p * 10) (v2y p * 10) 50) (Vector3 0 0 (- 1))),
       intersectPlane = ray_intersectPlane,
       intersectSphere = (\<lambda>ray sp. None),
       applyQuaternion = (\<lambda>v q. v),
       lookAt = (\<lambda>pos target. Euler 0 0 0),
       worldToLocal = (\<lambda>obj v. subVectors v (obj_position obj)),
       makeRotationFromEuler = (\<lambda>e. identity),
       invert = (\<lambda>m. m) \<rparr>"

definition still_camera :: Camera where
  "still_camera =
     \<lparr> cam_position = Vector3 0 0 50, cam_rotation = Euler 0 0 0,
       cam_quaternion = Quaternion 0 0 0 1, projectionMatrixInverse = identity \<rparr>"

text \<open>
  A second library instance, for a Billboard at the origin and a camera behind it, at
  \<open>z = -50\<close>, that looks along the positive z axis: the camera is turned half a turn
  about the Y axis, and so is the Billboard by \<^verbatim>\<open>lookAt\<close>. The rotation matrix of Euler
  angles (order XYZ) is the one three.js builds; the inverse of a rotation matrix is its
  transpose.
\<close>

definition rotationFromEuler :: "Euler \<Rightarrow> Matrix4" where
  "rotationFromEuler eu =
     (case eu of Euler x y z \<Rightarrow>
        let a = Math_cos x; b = Math_sin x; c = Math_cos y; d = Math_sin y;
            e = Math_cos z; f = Math_sin z;
            ae = a * e; af = a * f; be = b * e; bf = b * f
        in Matrix4 [c * e, af + be * d, bf - ae * d, 0,
                    - c * f, ae - bf * d, be + af * d, 0,
                    d, - b * c, a * c, 0,
                    0, 0, 0, 1])"

definition transpose4 :: "Matrix4 \<Rightarrow> Matrix4" where
  "transpose4 m =
     Matrix4 (map (\<lambda>k. elements m ! ((k mod 4) * 4 + k div 4)) [0..<16])"

definition behind_three :: Three where
  "behind_three =
     \<lparr> setFromCamera =
         (\<lambda>p camera. Ray (Vector3 (- (v2x p * 10)) (v2y p * 10) (- 50)) (Vector3 0 0 1)),
       intersectPlane = ray_intersectPlane,
       intersectSphere = (\<lambda>ray sp. None),
       applyQuaternion = (\<lambda>v q. Vector3 (- v3x v) (v3y v) (- v3z v)),
       lookAt = (\<lambda>pos target. Euler 0 Math_PI 0),
       worldToLocal = (\<lambda>obj v. subVectors v (obj_position obj)),
       makeRotationFromEuler = rotationFromEuler,
       invert = transpose4 \<rparr>"

definition behind_camera :: Camera where
  "behind_camera =
     \<lparr> cam_position = Vector3 0 0 (- 50), cam_rotation = Euler 0 Math_PI 0,
       cam_quaternion = Quaternion 0 1 0 0, projectionMatrixInverse = identity \<rparr>"

text \<open>A Billboard as the constructor makes it at the origin with stroke width 1, holding
  the given vertex numbers.\<close>

definition ribbon_with :: "jsnum list \<Rightarrow> Billboard" where
  "ribbon_with vs =
     (Billboard_new (Vector2 (Fin 0) (Fin 0)) (Vector3 (Fin 0) (Fin 0) (Fin 0)) (Fin 1))
       \<lparr> vertices := vs \<rparr>"

text \<open>The mesh that \<^verbatim>\<open>new Ground(20, 2)\<close> builds: 9 vertices, 10 apart.\<close>

definition ground_20_2 :: Ground where
  "ground_20_2 =
     \<lparr> segments = Fin 2,
       gvertices =
         [Fin (- 10), Fin 0, Fin (- 10),  Fin (- 10), Fin 0, Fin 0,  Fin (- 10), Fin 0, Fin 10,
          Fin 0, Fin 0, Fin (- 10),  Fin 0, Fin 0, Fin 0,  Fin 0, Fin 0, Fin 10,
          Fin 10, Fin 0, Fin (- 10),  Fin 10, Fin 0, Fin 0,  Fin 10, Fin 0, Fin 10],
       gindices =
         [Fin 0, Fin 1, Fin 3,  Fin 3, Fin 1, Fin 4,  Fin 1, Fin 2, Fin 4,  Fin 4, Fin 2, Fin 5,
          Fin 3, Fin 4, Fin 6,  Fin 6, Fin 4, Fin 7,  Fin 4, Fin 5, Fin 7,  Fin 7, Fin 5, Fin 8] \<rparr>"

section \<open>Properties of the number model\<close>

lemma numeral_jsnum: "(numeral n :: jsnum) = Fin (numeral n)"
proof (induction n)
  case One
  show ?case by (simp add: one_jsnum_def)
next
  case (Bit0 n)
  have "(numeral (num.Bit0 n) :: jsnum) = numeral n + numeral n" by (rule numeral_Bit0)
  then show ?case using Bit0 by (simp add: numeral_Bit0[where 'a=real])
next
  case (Bit1 n)
  have "(numeral (num.Bit1 n) :: jsnum) = numeral n + numeral n + 1" by (rule numeral_Bit1)
  then show ?case using Bit1 by (simp add: one_jsnum_def numeral_Bit1[where 'a=real])
qed

lemma jsnum_3: "(3::jsnum) = Fin 3"
  by (simp add: numeral_jsnum)



lemma Fin_minus [simp]: "Fin a - Fin b = Fin (a - b)"
  by (simp add: minus_jsnum_def)

lemma NaN_arith [simp]:
  "a + NaN = NaN" "NaN + a = NaN" "a * NaN = NaN" "NaN * a = NaN"
  "a - NaN = NaN" "NaN - a = NaN" "a / NaN = NaN" "NaN / a = NaN"
  by (cases a; simp add: minus_jsnum_def)+

section \<open>The grid of the Ground constructor\<close>

lemma ilog2_small:
  "ilog2 1 = 0" "ilog2 2 = 1" "ilog2 3 = 1" "ilog2 4 = 2" "ilog2 5 = 2" "ilog2 6 = 2" "ilog2 7 = 2"
  "ilog2 8 = 3" "ilog2 9 = 3" "ilog2 10 = 3" "ilog2 11 = 3" "ilog2 12 = 3" "ilog2 13 = 3"
  "ilog2 14 = 3" "ilog2 15 = 3"
  by (simp_all add: ilog2_def compute_bitlen)

lemma round64_small:
  "round64 0 = Fin 0" "round64 1 = Fin 1" "round64 2 = Fin 2" "round64 3 = Fin 3" "round64 4 = Fin 4"
  "round64 5 = Fin 5" "round64 6 = Fin 6" "round64 7 = Fin 7" "round64 8 = Fin 8"
  "round64 9 = Fin 9" "round64 10 = Fin 10" "round64 11 = Fin 11" "round64 12 = Fin 12"
  "round64 13 = Fin 13" "round64 14 = Fin 14" "round64 15 = Fin 15"
  by (simp_all add: round64_def Let_def ilog2_small pow2_def round_half_even_def)

lemma ilog2_grid:
  "ilog2 (7 / 3) = 1" "ilog2 (7 / 2) = 1"
  "ilog2 (2627099782632789 / 2251799813685248) = 0"
  "ilog2 (1313549891316395 / 1125899906842624) = 0"
  "ilog2 (7881299347898369 / 2251799813685248) = 1"
  by (simp_all add: ilog2_def compute_bitlen)

lemma round64_grid:
  "round64 (7 / 3) = Fin (5254199565265579 / 2251799813685248)"
  "round64 (7 / 2) = Fin (7 / 2)"
  "round64 (- (7 / 2)) = Fin (- (7 / 2))"
  "round64 (- (2627099782632789 / 2251799813685248)) = Fin (- (2627099782632789 / 2251799813685248))"
  "round64 (1313549891316395 / 1125899906842624) = Fin (1313549891316395 / 1125899906842624)"
  "round64 (7881299347898369 / 2251799813685248) = Fin (7881299347898369 / 2251799813685248)"
  by (simp_all add: round64_def Let_def ilog2_grid pow2_def round_half_even_def)

lemmas Ground_new_eval =
  Ground_new_def Let_def vertex_rows.simps vertex_row.simps index_rows.simps index_row.simps
  convertRowColToIndex_def zero_jsnum_def one_jsnum_def numeral_jsnum

text \<open>
  C2 at \<^verbatim>\<open>new Ground(7, 3)\<close>, in binary64: the increment \<open>7 / 3\<close> is rounded up, and the
  third step takes the counter from \<open>-3.5\<close> to \<open>3.5000000000000004\<close>, past \<open>size / 2\<close>. Each
  loop runs three times: the mesh has 9 vertices (27 numbers) where \<open>(3 + 1)\<^sup>2 = 16\<close> are
  expected, and its 54 indices go up to 15. With exact arithmetic the same call gives
  the 16 vertices.
\<close>

theorem Ground_new_7_3_vertex_count:
  "map_option (\<lambda>g. (length (gvertices g), length (gindices g), last (gindices g)))
     (Ground_new binary64 (Fin 7) (Fin 3)) = Some (3 * 9, 6 * 3 ^ 2, Fin 15) \<and>
   map_option (\<lambda>g. (length (gvertices g), length (gindices g), last (gindices g)))
     (Ground_new exact (Fin 7) (Fin 3)) = Some (3 * 16, 6 * 3 ^ 2, Fin 15)"
proof -
  have b: "map_option (\<lambda>g. (length (gvertices g), length (gindices g), last (gindices g)))
     (Ground_new binary64 (Fin 7) (Fin 3)) = Some (3 * 9, 6 * 3 ^ 2, Fin 15)"
    by (simp add: Ground_new_eval round64_small round64_grid)
  have e: "map_option (\<lambda>g. (length (gvertices g), length (gindices g), last (gindices g)))
     (Ground_new exact (Fin 7) (Fin 3)) = Some (3 * 16, 6 * 3 ^ 2, Fin 15)"
    by (simp add: Ground_new_eval exact_def)
  from b e show ?thesis by (rule conjI)
qed

lemma grid_coord_Suc: "grid_coord s n k + s / real n = grid_coord s n (k + 1)"
  by (simp add: grid_coord_def ring_distribs add_divide_distrib)

lemma grid_coord_le:
  assumes "0 < s" and "0 < n"
  shows "(grid_coord s n k \<le> s / 2) = (k \<le> n)"
proof -
  from assms(2) have n: "0 < real n" by simp
  have "(grid_coord s n k \<le> s / 2) = (real k * (s / real n) \<le> s)"
    unfolding grid_coord_def by linarith
  also have "\<dots> = ((s * real k) / real n \<le> s)"
    by (simp add: mult.commute)
  also have "\<dots> = (s * real k \<le> s * real n)"
    using n by (rule pos_divide_le_eq)
  also have "\<dots> = (real k \<le> real n)"
    using assms(1) by (rule mult_le_cancel_left_pos)
  finally show ?thesis by simp
qed

lemma grid_guard:
  assumes "0 < s" and "0 < n"
  shows "(Fin (grid_coord s n k) \<le> exact (Fin s / 2)) = (k \<le> n)"
  using grid_coord_le[OF assms, of k] by (simp add: exact_def numeral_jsnum)

lemma grid_next:
  "exact (Fin (grid_coord s n k) + Fin (s / real n)) = Fin (grid_coord s n (k + 1))"
  by (simp add: exact_def grid_coord_Suc)

lemma grid_start: "exact (- Fin s / 2) = Fin (grid_coord s n 0)"
  by (simp add: exact_def numeral_jsnum grid_coord_def)

lemma vertex_row_exact:
  assumes "0 < s" and "0 < n" and "k \<le> n + 1" and "d = n + 1 - k"
  shows "vertex_row exact (Fin s) (Fin (s / real n)) i (Fin (grid_coord s n k)) vs =
         Some (vs @ concat (map (\<lambda>b. [i, 0, Fin (grid_coord s n b)]) [k..<n + 1]))"
  using assms(3,4)
proof (induction d arbitrary: k vs)
  case 0
  then have k: "k = n + 1" by simp
  then have g: "\<not> Fin (grid_coord s n k) \<le> exact (Fin s / 2)"
    by (simp add: grid_guard[OF assms(1,2)])
  show ?case
    by (subst vertex_row.simps) (simp add: g, simp add: k)
next
  case (Suc d)
  then have k: "k \<le> n" and d: "d = n + 1 - (k + 1)" and k1: "k + 1 \<le> n + 1" by simp_all
  from k have g: "Fin (grid_coord s n k) \<le> exact (Fin s / 2)"
    by (simp add: grid_guard[OF assms(1,2)])
  have up: "[k..<n + 1] = k # [k + 1..<n + 1]"
    using k by (simp add: upt_conv_Cons)
  have "vertex_row exact (Fin s) (Fin (s / real n)) i (Fin (grid_coord s n k)) vs =
        vertex_row exact (Fin s) (Fin (s / real n)) i (Fin (grid_coord s n (k + 1)))
          (vs @ [i, 0, Fin (grid_coord s n k)])"
    by (subst vertex_row.simps) (simp only: g grid_next if_True)
  also have "\<dots> = Some ((vs @ [i, 0, Fin (grid_coord s n k)]) @
       concat (map (\<lambda>b. [i, 0, Fin (grid_coord s n b)]) [k + 1..<n + 1]))"
    using k1 d by (rule Suc.IH)
  finally show ?case unfolding up by simp
qed

lemma vertex_rows_exact:
  assumes "0 < s" and "0 < n" and "k \<le> n + 1" and "d = n + 1 - k"
  shows "vertex_rows exact (Fin s) (Fin (s / real n)) (Fin (grid_coord s n k)) vs =
         Some (vs @ concat (map (\<lambda>a. concat (map (\<lambda>b. [Fin (grid_coord s n a), 0, Fin (grid_coord s n b)])
                                  [0..<n + 1])) [k..<n + 1]))"
  using assms(3,4)
proof (induction d arbitrary: k vs)
  case 0
  then have k: "k = n + 1" by simp
  then have g: "\<not> Fin (grid_coord s n k) \<le> exact (Fin s / 2)"
    by (simp add: grid_guard[OF assms(1,2)])
  show ?case
    by (subst vertex_rows.simps) (simp add: g, simp add: k)
next
  case (Suc d)
  then have k: "k \<le> n" and d: "d = n + 1 - (k + 1)" and k1: "k + 1 \<le> n + 1" by simp_all
  from k have g: "Fin (grid_coord s n k) \<le> exact (Fin s / 2)"
    by (simp add: grid_guard[OF assms(1,2)])
  have row: "vertex_row exact (Fin s) (Fin (s / real n)) (Fin (grid_coord s n k))
               (exact (- Fin s / 2)) vs =
     Some (vs @ concat (map (\<lambda>b. [Fin (grid_coord s n k), 0, Fin (grid_coord s n b)]) [0..<n + 1]))"
    unfolding grid_start[of s n] by (rule vertex_row_exact[OF assms(1,2)]) simp_all
  have up: "[k..<n + 1] = k # [k + 1..<n + 1]"
    using k by (simp add: upt_conv_Cons)
  have "vertex_rows exact (Fin s) (Fin (s / real n)) (Fin (grid_coord s n k)) vs =
        vertex_rows exact (Fin s) (Fin (s / real n)) (Fin (grid_coord s n (k + 1)))
          (vs @ concat (map (\<lambda>b. [Fin (grid_coord s n k), 0, Fin (grid_coord s n b)]) [0..<n + 1]))"
    by (subst vertex_rows.simps) (simp only: g grid_next if_True row Option.bind.simps)
  also have "\<dots> = Some ((vs @ concat (map (\<lambda>b. [Fin (grid_coord s n k), 0, Fin (grid_coord s n b)]) [0..<n + 1])) @
       concat (map (\<lambda>a. concat (map (\<lambda>b. [Fin (grid_coord s n a), 0, Fin (grid_coord s n b)])
                                  [0..<n + 1])) [k + 1..<n + 1]))"
    using k1 d by (rule Suc.IH)
  finally show ?case unfolding up by simp
qed

lemma index_guard: "(of_count k < of_count n) = (k < n)"
  by (simp add: of_count_def)

lemma index_next: "exact (of_count k + 1) = of_count (k + 1)"
  by (simp add: exact_def of_count_def one_jsnum_def)

lemma convertRowColToIndex_exact:
  "convertRowColToIndex exact (of_count n) (of_count a) (of_count b) = of_count (a * (n + 1) + b)"
  by (simp add: convertRowColToIndex_def exact_def of_count_def one_jsnum_def ring_distribs)

lemma index_row_exact:
  assumes "k \<le> n" and "d = n - k"
  shows "index_row exact (of_count n) (of_count a) (of_count k) ix =
         Some (ix @ concat (map (grid_cell n a) [k..<n]))"
  using assms
proof (induction d arbitrary: k ix)
  case 0
  then have k: "k = n" by simp
  show ?case
    by (subst index_row.simps) (simp add: index_guard k)
next
  case (Suc d)
  then have k: "k < n" and d: "d = n - (k + 1)" and k1: "k + 1 \<le> n" by simp_all
  from k have g: "of_count k < of_count n" by (simp add: index_guard)
  have up: "[k..<n] = k # [k + 1..<n]"
    using k by (simp add: upt_conv_Cons)
  have "index_row exact (of_count n) (of_count a) (of_count k) ix =
        index_row exact (of_count n) (of_count a) (of_count (k + 1)) (ix @ grid_cell n a k)"
    by (subst index_row.simps)
       (simp only: g if_True index_next convertRowColToIndex_exact grid_cell_def append.simps)
  also have "\<dots> = Some ((ix @ grid_cell n a k) @ concat (map (grid_cell n a) [k + 1..<n]))"
    using k1 d by (rule Suc.IH)
  finally show ?case unfolding up by simp
qed

lemma index_rows_exact:
  assumes "a \<le> n" and "d = n - a"
  shows "index_rows exact (of_count n) (of_count a) ix =
         Some (ix @ concat (map (\<lambda>a. concat (map (grid_cell n a) [0..<n])) [a..<n]))"
  using assms
proof (induction d arbitrary: a ix)
  case 0
  then have a: "a = n" by simp
  show ?case
    by (subst index_rows.simps) (simp add: index_guard a)
next
  case (Suc d)
  then have a: "a < n" and d: "d = n - (a + 1)" and a1: "a + 1 \<le> n" by simp_all
  from a have g: "of_count a < of_count n" by (simp add: index_guard)
  have z: "(0::jsnum) = of_count 0" by (simp add: of_count_def zero_jsnum_def)
  have row: "index_row exact (of_count n) (of_count a) 0 ix =
             Some (ix @ concat (map (grid_cell n a) [0..<n]))"
    unfolding z by (rule index_row_exact) simp_all
  have up: "[a..<n] = a # [a + 1..<n]"
    using a by (simp add: upt_conv_Cons)
  have "index_rows exact (of_count n) (of_count a) ix =
        index_rows exact (of_count n) (of_count (a + 1)) (ix @ concat (map (grid_cell n a) [0..<n]))"
    by (subst index_rows.simps) (simp only: g if_True index_next row Option.bind.simps)
  also have "\<dots> = Some ((ix @ concat (map (grid_cell n a) [0..<n])) @
        concat (map (\<lambda>a. concat (map (grid_cell n a) [0..<n])) [a + 1..<n]))"
    using a1 d by (rule Suc.IH)
  finally show ?case unfolding up by simp
qed

lemma length_concat_blocks:
  "(\<And>x. x \<in> set xs \<Longrightarrow> length (f x) = c) \<Longrightarrow> length (concat (map f xs)) = c * length xs"
  by (induction xs) simp_all

text \<open>
  With exact arithmetic the constructor returns, for every size \<open>s > 0\<close> and every number
  \<open>n \<ge> 1\<close> of segments, the intended mesh: \<open>(n + 1)\<^sup>2\<close> vertices on the uniform grid, with
  height 0, and \<open>6n\<^sup>2\<close> indices, each the number of one of these vertices.
\<close>

lemma Ground_new_exact_grid:
  assumes "0 < s" and "0 < n"
  shows "Ground_new exact (Fin s) (of_count n) =
         Some \<lparr> segments = of_count n, gvertices = grid_vertices s n, gindices = grid_indices n \<rparr>"
proof -
  have inc: "exact (Fin s / of_count n) = Fin (s / real n)"
    using assms(2) by (simp add: exact_def of_count_def)
  have vs: "vertex_rows exact (Fin s) (Fin (s / real n)) (exact (- Fin s / 2)) [] =
            Some (grid_vertices s n)"
    unfolding grid_start[of s n] grid_vertices_def
    using vertex_rows_exact[OF assms, of 0 "n + 1" "[]"] by simp
  have z: "(0::jsnum) = of_count 0" by (simp add: of_count_def zero_jsnum_def)
  have ix: "index_rows exact (of_count n) 0 [] = Some (grid_indices n)"
    unfolding z grid_indices_def using index_rows_exact[of 0 n n "[]"] by simp
  show ?thesis
    unfolding Ground_new_def Let_def inc vs ix by simp
qed

lemma grid_counts:
  "length (grid_vertices s n) = 3 * (n + 1) ^ 2"
  "length (grid_indices n) = 6 * n ^ 2"
proof -
  have "length (concat (map (\<lambda>b. [Fin (grid_coord s n a), 0, Fin (grid_coord s n b)]) [0..<n + 1]))
        = 3 * (n + 1)" for a
    by (subst length_concat_blocks[where c = 3]) (simp_all del: upt_Suc)
  then show "length (grid_vertices s n) = 3 * (n + 1) ^ 2"
    unfolding grid_vertices_def
    by (subst length_concat_blocks[where c = "3 * (n + 1)"])
       (simp_all add: power2_eq_square ring_distribs del: upt_Suc)
  have "length (concat (map (grid_cell n a) [0..<n])) = 6 * n" for a
    by (subst length_concat_blocks[where c = 6]) (simp_all add: grid_cell_def)
  then show "length (grid_indices n) = 6 * n ^ 2"
    unfolding grid_indices_def
    by (subst length_concat_blocks[where c = "6 * n"]) (simp_all add: power2_eq_square)
qed

lemma grid_indices_valid:
  assumes "i \<in> set (grid_indices n)"
  shows "\<exists>k. i = of_count k \<and> k < (n + 1) ^ 2"
proof -
  from assms obtain a b where a: "a < n" and b: "b < n" and i: "i \<in> set (grid_cell n a b)"
    by (auto simp: grid_indices_def)
  have bound: "a' * (n + 1) + b' < (n + 1) ^ 2" if "a' \<le> n" "b' \<le> n" for a' b'
  proof -
    from that have "a' * (n + 1) + b' \<le> n * (n + 1) + n"
      by (intro add_mono mult_right_mono) simp_all
    also have "\<dots> < (n + 1) ^ 2" by (simp add: power2_eq_square)
    finally show ?thesis .
  qed
  from i consider "i = of_count (a * (n + 1) + b)" | "i = of_count (a * (n + 1) + (b + 1))"
    | "i = of_count ((a + 1) * (n + 1) + b)" | "i = of_count ((a + 1) * (n + 1) + (b + 1))"
    by (auto simp: grid_cell_def)
  then show ?thesis
  proof cases
    case 1
    with bound[of a b] a b show ?thesis by (intro exI[of _ "a * (n + 1) + b"]) simp
  next
    case 2
    with bound[of a "b + 1"] a b show ?thesis by (intro exI[of _ "a * (n + 1) + (b + 1)"]) simp
  next
    case 3
    with bound[of "a + 1" b] a b show ?thesis by (intro exI[of _ "(a + 1) * (n + 1) + b"]) simp
  next
    case 4
    with bound[of "a + 1" "b + 1"] a b show ?thesis
      by (intro exI[of _ "(a + 1) * (n + 1) + (b + 1)"]) simp
  qed
qed

lemma Ground_new_20_2: "Ground_new exact (Fin 20) (Fin 2) = Some ground_20_2"
  by (simp add: Ground_new_eval exact_def ground_20_2_def)

section \<open>The reshape plane and the silhouette curve\<close>



lemma reshapePlane_x_axis:
  "reshapePlane (Vector3 (Fin (- 5)) (Fin 0) (Fin 0)) (Vector3 (Fin 5) (Fin 0) (Fin 0)) =
   Plane (Vector3 (Fin 0) (Fin 0) (Fin 1)) (Fin 0)"
  by (simp add: reshapePlane_def subVectors_def crossVectors_def normalize_def length3_def Let_def
      falsy_def multiplyScalar_def zero_jsnum_def one_jsnum_def setFromNormalAndCoplanarPoint_def dot_def)


text \<open>
  C1: the silhouette curve has one point for every sample of the screen path, in the
  order of the samples: the intersection of the sample's camera ray with the plane, and
  the zero point \<open>(0, 0, 0)\<close> where the library reports no intersection. No sample is
  skipped and building the curve does not fail.
\<close>

theorem silhouetteCurve_one_point_per_sample:
  "length (silhouetteCurve three camera pl screenPath0) = length screenPath0 \<and>
   (\<forall>i < length screenPath0.
      silhouetteCurve three camera pl screenPath0 ! i =
        (case intersectPlane three (setFromCamera three (screenPath0 ! i) camera) pl of
           None \<Rightarrow> Vector3 0 0 0
         | Some p \<Rightarrow> p))"
  by (simp add: silhouetteCurve_def intersectPlane_into_new_def)

lemma ortho_ray_parallel:
  "intersectPlane ortho_three (setFromCamera ortho_three (Vector2 (Fin (1 / 2)) (Fin 0)) still_camera)
     (Plane (Vector3 (Fin 1) (Fin 0) (Fin 0)) (Fin 0)) = None"
  by (simp add: ortho_three_def ray_intersectPlane_def distanceToPlane_def Let_def dot_def
      distanceToPoint_def zero_jsnum_def one_jsnum_def numeral_jsnum)

lemma ortho_ray_hits:
  "intersectPlane ortho_three (setFromCamera ortho_three (Vector2 (Fin (1 / 2)) (Fin 0)) still_camera)
     (Plane (Vector3 (Fin 0) (Fin 0) (Fin 1)) (Fin 0)) = Some (Vector3 (Fin 5) (Fin 0) (Fin 0))"
  by (simp add: ortho_three_def ray_intersectPlane_def distanceToPlane_def Let_def dot_def
      distanceToPoint_def zero_jsnum_def one_jsnum_def numeral_jsnum ray_at_def addScaledVector_def)

theorem silhouetteCurve_one_point_per_sample_witness:
  "(0::nat) < length [Vector2 (Fin (1 / 2)) (Fin 0)] \<and>
   silhouetteCurve ortho_three still_camera (Plane (Vector3 (Fin 1) (Fin 0) (Fin 0)) (Fin 0))
      [Vector2 (Fin (1 / 2)) (Fin 0)] ! 0 = Vector3 0 0 0 \<and>
   silhouetteCurve ortho_three still_camera (Plane (Vector3 (Fin 0) (Fin 0) (Fin 1)) (Fin 0))
      [Vector2 (Fin (1 / 2)) (Fin 0)] ! 0 = Vector3 (Fin 5) (Fin 0) (Fin 0)"
proof -
  have i: "(0::nat) < length [Vector2 (Fin (1 / 2)) (Fin 0)]" by simp
  from silhouetteCurve_one_point_per_sample
    [of ortho_three still_camera "Plane (Vector3 (Fin 1) (Fin 0) (Fin 0)) (Fin 0)"
        "[Vector2 (Fin (1 / 2)) (Fin 0)]"] i
  have a: "silhouetteCurve ortho_three still_camera (Plane (Vector3 (Fin 1) (Fin 0) (Fin 0)) (Fin 0))
      [Vector2 (Fin (1 / 2)) (Fin 0)] ! 0 = Vector3 0 0 0"
    by (simp add: ortho_ray_parallel)
  from silhouetteCurve_one_point_per_sample
    [of ortho_three still_camera "Plane (Vector3 (Fin 0) (Fin 0) (Fin 1)) (Fin 0)"
        "[Vector2 (Fin (1 / 2)) (Fin 0)]"] i
  have b: "silhouetteCurve ortho_three still_camera (Plane (Vector3 (Fin 0) (Fin 0) (Fin 1)) (Fin 0))
      [Vector2 (Fin (1 / 2)) (Fin 0)] ! 0 = Vector3 (Fin 5) (Fin 0) (Fin 0)"
    by (simp add: ortho_ray_hits)
  from i a b show ?thesis by blast
qed

section \<open>computeH\<close>

lemma computeH_loop_step:
  "computeH_loop xTarget closestPoint origin0 planeX (p # q # rest) =
     (if brackets xTarget (curveX origin0 planeX p) (curveX origin0 planeX q) then
        (if curveX origin0 planeX p \<le> xTarget \<and> xTarget \<le> curveX origin0 planeX q
         then interpolateY xTarget (curveX origin0 planeX p, v3y p) (curveX origin0 planeX q, v3y q)
         else interpolateY xTarget (curveX origin0 planeX q, v3y q) (curveX origin0 planeX p, v3y p))
        - v3y closestPoint
      else computeH_loop xTarget closestPoint origin0 planeX (q # rest))"
  by (simp add: brackets_def curveX_def interpolateY_def Let_def)

lemma computeH_loop_find:
  "computeH_loop xTarget closestPoint origin0 planeX curve =
     (case find (\<lambda>(p, q). brackets xTarget (curveX origin0 planeX p) (curveX origin0 planeX q))
                (zip curve (tl curve)) of
        None \<Rightarrow> 0
      | Some (p, q) \<Rightarrow>
          (if curveX origin0 planeX p \<le> xTarget \<and> xTarget \<le> curveX origin0 planeX q
           then interpolateY xTarget (curveX origin0 planeX p, v3y p) (curveX origin0 planeX q, v3y q)
           else interpolateY xTarget (curveX origin0 planeX q, v3y q) (curveX origin0 planeX p, v3y p))
          - v3y closestPoint)"
proof (induction xTarget closestPoint origin0 planeX curve rule: computeH_loop.induct)
  case (1 xTarget closestPoint origin0 planeX p q rest)
  show ?case
  proof (cases "brackets xTarget (curveX origin0 planeX p) (curveX origin0 planeX q)")
    case True
    then show ?thesis
      by (simp add: computeH_loop_step del: computeH_loop.simps)
  next
    case False
    have "\<not> (dot (subVectors p origin0) planeX \<le> xTarget \<and> xTarget \<le> dot (subVectors q origin0) planeX)"
      "\<not> (dot (subVectors q origin0) planeX \<le> xTarget \<and> xTarget \<le> dot (subVectors p origin0) planeX)"
      using False by (auto simp: brackets_def curveX_def)
    from 1[OF refl refl this] False show ?thesis
      by (simp add: computeH_loop_step del: computeH_loop.simps)
  qed
qed simp_all

lemma computeH_refines:
  assumes "curve \<noteq> []"
  shows "computeH closestPoint curve pl = Inr (computeH_spec closestPoint curve pl)"
proof -
  from assms obtain o' rest where c: "curve = o' # rest" by (cases curve) auto
  have xT: "dot (subVectors closestPoint o') planeX = curveX o' planeX closestPoint" for planeX
    by (simp add: curveX_def)
  have "computeH closestPoint curve pl =
        Inr (computeH_loop (curveX o' (planeX_of pl) closestPoint) closestPoint o' (planeX_of pl) curve)"
    by (simp add: computeH_def Let_def c xT planeX_of_def del: computeH_loop.simps)
  also have "\<dots> = Inr (computeH_spec closestPoint curve pl)"
    unfolding computeH_loop_find computeH_spec_def Let_def c list.sel by (rule refl)
  finally show ?thesis .
qed




lemma planeX_z: "planeX_of (Plane (Vector3 (Fin 0) (Fin 0) (Fin 1)) (Fin 0)) = Vector3 (Fin 1) (Fin 0) (Fin 0)"
  by (simp add: planeX_of_def crossVectors_def normalize_def length3_def Let_def falsy_def
      multiplyScalar_def zero_jsnum_def one_jsnum_def)



section \<open>The heights written by reshapeGround\<close>

lemma interpolateY_degenerate:
  "interpolateY (Fin x) (Fin x, ya) (Fin x, yb) = NaN"
  by (simp add: interpolateY_def)

text \<open>
  C10: when the first bracketing pair of the curve has both plane-local X equal to the
  target X, the division for \<open>alpha\<close> is \<open>0 / 0\<close> and \<^verbatim>\<open>computeH\<close> returns NaN; NaN is not
  equal to 0, so the loop of \<^verbatim>\<open>reshapeGround\<close> writes the blend, which is NaN, into the
  height of the vertex. This holds for every weight \<open>w\<close>, in particular when \<open>w\<close> is not 0.
\<close>

theorem computeH_zero_by_zero:
  assumes "curve \<noteq> []"
    and "find (\<lambda>(p, q). brackets (curveX (hd curve) (planeX_of pl) closestPoint)
                 (curveX (hd curve) (planeX_of pl) p) (curveX (hd curve) (planeX_of pl) q))
              (zip curve (tl curve)) = Some (a, b)"
    and "curveX (hd curve) (planeX_of pl) a = Fin x"
    and "curveX (hd curve) (planeX_of pl) b = Fin x"
    and "curveX (hd curve) (planeX_of pl) closestPoint = Fin x"
    and "i * 3 + 2 < length vs"
    and "closestPoint = projectPoint pl (Vector3 (vs ! (i * 3)) (vs ! (i * 3 + 1)) (vs ! (i * 3 + 2)))"
  shows "computeH closestPoint curve pl = Inr NaN \<and>
         reshape_vertex pl curve i vs = Inr (vs[i * 3 + 1 := NaN])"
proof -
  have "computeH_spec closestPoint curve pl =
        (if Fin x \<le> Fin x \<and> Fin x \<le> Fin x
         then interpolateY (Fin x) (Fin x, v3y a) (Fin x, v3y b)
         else interpolateY (Fin x) (Fin x, v3y b) (Fin x, v3y a)) - v3y closestPoint"
    unfolding computeH_spec_def Let_def assms(2) by (simp add: assms(3,4,5))
  then have "computeH_spec closestPoint curve pl = NaN"
    by (simp add: interpolateY_degenerate)
  with computeH_refines[OF assms(1)] have h: "computeH closestPoint curve pl = Inr NaN"
    by simp
  from assms(6) have g: "js_get vs (i * 3) = Some (vs ! (i * 3))"
    "js_get vs (i * 3 + 1) = Some (vs ! (i * 3 + 1))"
    "js_get vs (i * 3 + 2) = Some (vs ! (i * 3 + 2))"
    by (simp_all add: js_get_def)
  have z: "NaN \<noteq> (0::jsnum)" by (simp add: zero_jsnum_def)
  from assms(6) have s: "js_set vs (i * 3 + 1) NaN = vs[i * 3 + 1 := NaN]"
    by (simp add: js_set_def)
  have "reshape_vertex pl curve i vs = Inr (vs[i * 3 + 1 := NaN])"
    unfolding reshape_vertex_def Let_def g or_default_def to_number_def option.case
      assms(7)[symmetric] h sum.case
    using z s by simp
  with h show ?thesis by simp
qed

theorem computeH_zero_by_zero_witness:
  "reshape_vertex (Plane (Vector3 (Fin 0) (Fin 0) (Fin 1)) (Fin 0))
     [Vector3 (Fin 0) (Fin 0) (Fin 0), Vector3 (Fin 0) (Fin 3) (Fin 0)] 0 [Fin 0, Fin 0, Fin 1] =
     Inr [Fin 0, NaN, Fin 1] \<and>
   falloff (distanceToPoint (Plane (Vector3 (Fin 0) (Fin 0) (Fin 1)) (Fin 0))
      (Vector3 (Fin 0) (Fin 0) (Fin 1))) = Fin (24 / 25)"
proof -
  let ?pl = "Plane (Vector3 (Fin 0) (Fin 0) (Fin 1)) (Fin 0)"
  let ?a = "Vector3 (Fin 0) (Fin 0) (Fin 0)"
  let ?b = "Vector3 (Fin 0) (Fin 3) (Fin 0)"
  let ?vs = "[Fin 0, Fin 0, Fin 1]"
  have cp: "?a = projectPoint ?pl (Vector3 (?vs ! (0 * 3)) (?vs ! (0 * 3 + 1)) (?vs ! (0 * 3 + 2)))"
    by (simp add: projectPoint_def distanceToPoint_def dot_def addScaledVector_def)
  have x: "curveX (hd [?a, ?b]) (planeX_of ?pl) ?a = Fin 0"
    "curveX (hd [?a, ?b]) (planeX_of ?pl) ?b = Fin 0"
    by (simp_all add: planeX_z curveX_def subVectors_def dot_def)
  have f: "find (\<lambda>(p, q). brackets (curveX (hd [?a, ?b]) (planeX_of ?pl) ?a)
                 (curveX (hd [?a, ?b]) (planeX_of ?pl) p) (curveX (hd [?a, ?b]) (planeX_of ?pl) q))
              (zip [?a, ?b] (tl [?a, ?b])) = Some (?a, ?b)"
    by (simp add: brackets_def planeX_z curveX_def subVectors_def dot_def)
  have ne: "[?a, ?b] \<noteq> []" by simp
  have i: "0 * 3 + 2 < length ?vs" by simp
  from computeH_zero_by_zero [OF ne f x(1) x(2) x(1) i cp]
  have r: "reshape_vertex ?pl [?a, ?b] 0 ?vs = Inr [Fin 0, NaN, Fin 1]"
    by simp
  have w: "falloff (distanceToPoint ?pl (Vector3 (Fin 0) (Fin 0) (Fin 1))) = Fin (24 / 25)"
    by (simp add: falloff_def distanceToPoint_def dot_def Math_pow2_def zero_jsnum_def
        one_jsnum_def numeral_jsnum)
  from r w show ?thesis by (rule conjI)
qed

lemma reshape_vertex_eq:
  assumes "i * 3 + 2 < length vs" and "curve \<noteq> []"
  shows "reshape_vertex pl curve i vs =
     Inr (vs[i * 3 + 1 :=
            blended_height
              (falloff (distanceToPoint pl (Vector3 (vs ! (i * 3)) (vs ! (i * 3 + 1)) (vs ! (i * 3 + 2)))))
              (computeH_spec (projectPoint pl (Vector3 (vs ! (i * 3)) (vs ! (i * 3 + 1)) (vs ! (i * 3 + 2)))) curve pl)
              (vs ! (i * 3 + 1))])"
proof -
  from assms(1) have g: "js_get vs (i * 3) = Some (vs ! (i * 3))"
    "js_get vs (i * 3 + 1) = Some (vs ! (i * 3 + 1))"
    "js_get vs (i * 3 + 2) = Some (vs ! (i * 3 + 2))"
    by (simp_all add: js_get_def)
  from assms(1) have s: "js_set vs (i * 3 + 1) a = vs[i * 3 + 1 := a]" for a
    by (simp add: js_set_def)
  show ?thesis
    unfolding reshape_vertex_def Let_def g or_default_def to_number_def option.case
      computeH_refines[OF assms(2)] sum.case s
    by (simp add: blended_height_def)
qed

lemma reshape_loop_frame_aux:
  assumes "curve \<noteq> []" and "length vs = 3 * n" and "i \<le> n" and "m = n - i"
  shows "\<exists>vs'. reshape_loop pl curve i vs = Inr vs' \<and> length vs' = length vs \<and>
      (\<forall>j < i * 3. vs' ! j = vs ! j) \<and>
      (\<forall>k. i \<le> k \<and> k < n \<longrightarrow>
         vs' ! (k * 3) = vs ! (k * 3) \<and> vs' ! (k * 3 + 2) = vs ! (k * 3 + 2) \<and>
         vs' ! (k * 3 + 1) =
           blended_height
             (falloff (distanceToPoint pl (Vector3 (vs ! (k * 3)) (vs ! (k * 3 + 1)) (vs ! (k * 3 + 2)))))
             (computeH_spec (projectPoint pl (Vector3 (vs ! (k * 3)) (vs ! (k * 3 + 1)) (vs ! (k * 3 + 2)))) curve pl)
             (vs ! (k * 3 + 1)))"
  using assms
proof (induction m arbitrary: i vs)
  case 0
  then have "i = n" by simp
  with 0 have "\<not> of_count i < of_count (length vs) / 3"
    by (simp add: of_count_def numeral_jsnum)
  then have "reshape_loop pl curve i vs = Inr vs"
    by (subst reshape_loop.simps) simp
  with \<open>i = n\<close> show ?case by auto
next
  case (Suc m)
  then have lt: "i < n" and m: "m = n - (i + 1)" by simp_all
  with Suc.prems have guard: "of_count i < of_count (length vs) / 3"
    by (simp add: of_count_def numeral_jsnum)
  from lt Suc.prems have inr: "i * 3 + 2 < length vs" by simp
  let ?new = "blended_height
              (falloff (distanceToPoint pl (Vector3 (vs ! (i * 3)) (vs ! (i * 3 + 1)) (vs ! (i * 3 + 2)))))
              (computeH_spec (projectPoint pl (Vector3 (vs ! (i * 3)) (vs ! (i * 3 + 1)) (vs ! (i * 3 + 2)))) curve pl)
              (vs ! (i * 3 + 1))"
  let ?vs1 = "vs[i * 3 + 1 := ?new]"
  have step: "reshape_vertex pl curve i vs = Inr ?vs1"
    using inr Suc.prems(1) by (rule reshape_vertex_eq)
  have unf: "reshape_loop pl curve i vs = reshape_loop pl curve (i + 1) ?vs1"
    by (subst reshape_loop.simps) (simp add: guard step)
  have len1: "length ?vs1 = 3 * n" using Suc.prems by simp
  from lt have le1: "i + 1 \<le> n" by simp
  from Suc.IH[OF Suc.prems(1) len1 le1 m] obtain vs' where
    r: "reshape_loop pl curve (i + 1) ?vs1 = Inr vs'" and l: "length vs' = length ?vs1"
    and low: "\<forall>j < (i + 1) * 3. vs' ! j = ?vs1 ! j"
    and high: "\<forall>k. i + 1 \<le> k \<and> k < n \<longrightarrow>
         vs' ! (k * 3) = ?vs1 ! (k * 3) \<and> vs' ! (k * 3 + 2) = ?vs1 ! (k * 3 + 2) \<and>
         vs' ! (k * 3 + 1) =
           blended_height
             (falloff (distanceToPoint pl (Vector3 (?vs1 ! (k * 3)) (?vs1 ! (k * 3 + 1)) (?vs1 ! (k * 3 + 2)))))
             (computeH_spec (projectPoint pl (Vector3 (?vs1 ! (k * 3)) (?vs1 ! (k * 3 + 1)) (?vs1 ! (k * 3 + 2)))) curve pl)
             (?vs1 ! (k * 3 + 1))"
    by blast
  have other: "?vs1 ! j = vs ! j" if "j \<noteq> i * 3 + 1" for j
    using that by simp
  have c1: "\<forall>j < i * 3. vs' ! j = vs ! j"
  proof (intro allI impI)
    fix j assume "j < i * 3"
    then have "j < (i + 1) * 3" "j \<noteq> i * 3 + 1" by simp_all
    with low other show "vs' ! j = vs ! j" by simp
  qed
  have c2: "vs' ! (k * 3) = vs ! (k * 3) \<and> vs' ! (k * 3 + 2) = vs ! (k * 3 + 2) \<and>
         vs' ! (k * 3 + 1) =
           blended_height
             (falloff (distanceToPoint pl (Vector3 (vs ! (k * 3)) (vs ! (k * 3 + 1)) (vs ! (k * 3 + 2)))))
             (computeH_spec (projectPoint pl (Vector3 (vs ! (k * 3)) (vs ! (k * 3 + 1)) (vs ! (k * 3 + 2)))) curve pl)
             (vs ! (k * 3 + 1))" if k: "i \<le> k" "k < n" for k
  proof (cases "k = i")
    case True
    have a: "vs' ! (i * 3) = ?vs1 ! (i * 3)" "vs' ! (i * 3 + 1) = ?vs1 ! (i * 3 + 1)"
      "vs' ! (i * 3 + 2) = ?vs1 ! (i * 3 + 2)"
      using low by simp_all
    have b: "?vs1 ! (i * 3 + 1) = ?new" using inr by simp
    from a b show ?thesis unfolding True by simp
  next
    case False
    with k have k1: "i + 1 \<le> k" by simp
    have ne: "k * 3 \<noteq> i * 3 + 1" "k * 3 + 1 \<noteq> i * 3 + 1" "k * 3 + 2 \<noteq> i * 3 + 1"
      using k1 by simp_all
    from high k1 k(2) ne show ?thesis by (simp add: other)
  qed
  from r unf l len1 Suc.prems(2) c1 c2 show ?case by simp
qed

text \<open>
  What \<^verbatim>\<open>reshapeGround\<close> does to a mesh of \<open>n\<close> vertices, for a screen path with at least
  one sample: it does not throw, and it changes nothing but the heights; the X and Z of
  every vertex stay, and the new height of a vertex is the blend of its old height with
  the value of \<^verbatim>\<open>computeH\<close> at its closest point on the plane.
\<close>

lemma reshapeGround_heights:
  assumes "screenPath0 \<noteq> []" and "length (gvertices g) = 3 * n"
  shows "\<exists>g'. reshapeGround three screenPath0 groundStartPoint groundEndPoint camera g = Inr g' \<and>
     segments g' = segments g \<and> gindices g' = gindices g \<and>
     length (gvertices g') = length (gvertices g) \<and>
     (\<forall>k < n.
        gvertices g' ! (k * 3) = gvertices g ! (k * 3) \<and>
        gvertices g' ! (k * 3 + 2) = gvertices g ! (k * 3 + 2) \<and>
        gvertices g' ! (k * 3 + 1) =
          blended_height
            (falloff (distanceToPoint (reshapePlane groundStartPoint groundEndPoint)
               (Vector3 (gvertices g ! (k * 3)) (gvertices g ! (k * 3 + 1)) (gvertices g ! (k * 3 + 2)))))
            (computeH_spec
               (projectPoint (reshapePlane groundStartPoint groundEndPoint)
                  (Vector3 (gvertices g ! (k * 3)) (gvertices g ! (k * 3 + 1)) (gvertices g ! (k * 3 + 2))))
               (silhouetteCurve three camera (reshapePlane groundStartPoint groundEndPoint) screenPath0)
               (reshapePlane groundStartPoint groundEndPoint))
            (gvertices g ! (k * 3 + 1)))"
proof -
  let ?pl = "reshapePlane groundStartPoint groundEndPoint"
  let ?curve = "silhouetteCurve three camera ?pl screenPath0"
  from assms(1) have ne: "?curve \<noteq> []" by (simp add: silhouetteCurve_def)
  from reshape_loop_frame_aux[OF ne assms(2), of 0 n ?pl] obtain vs' where
    r: "reshape_loop ?pl ?curve 0 (gvertices g) = Inr vs'"
    and l: "length vs' = length (gvertices g)"
    and h: "\<forall>k. 0 \<le> k \<and> k < n \<longrightarrow>
         vs' ! (k * 3) = gvertices g ! (k * 3) \<and> vs' ! (k * 3 + 2) = gvertices g ! (k * 3 + 2) \<and>
         vs' ! (k * 3 + 1) =
           blended_height
             (falloff (distanceToPoint ?pl (Vector3 (gvertices g ! (k * 3)) (gvertices g ! (k * 3 + 1)) (gvertices g ! (k * 3 + 2)))))
             (computeH_spec (projectPoint ?pl (Vector3 (gvertices g ! (k * 3)) (gvertices g ! (k * 3 + 1)) (gvertices g ! (k * 3 + 2)))) ?curve ?pl)
             (gvertices g ! (k * 3 + 1))"
    by auto
  have "reshapeGround three screenPath0 groundStartPoint groundEndPoint camera g =
        Inr (g\<lparr> gvertices := vs' \<rparr>)"
    by (simp add: reshapeGround_def Let_def r)
  with l h show ?thesis by simp
qed

lemma blended_height_untouched:
  "blended_height w 0 old = old"
  by (simp add: blended_height_def)

lemma blended_height_zero_weight:
  "blended_height 0 (Fin h) old = old"
  by (cases old) (simp_all add: blended_height_def zero_jsnum_def one_jsnum_def)

lemma blended_height_NaN:
  "blended_height w NaN old = NaN"
  by (simp add: blended_height_def zero_jsnum_def)

lemma vertical_stroke_curve:
  "silhouetteCurve ortho_three still_camera (Plane (Vector3 (Fin 0) (Fin 0) (Fin 1)) (Fin 0))
     [Vector2 (Fin 0) (Fin 0), Vector2 (Fin 0) (Fin (3 / 10))] =
   [Vector3 (Fin 0) (Fin 0) (Fin 0), Vector3 (Fin 0) (Fin 3) (Fin 0)]"
  by (simp add: silhouetteCurve_def intersectPlane_into_new_def ortho_three_def
      ray_intersectPlane_def distanceToPlane_def Let_def dot_def distanceToPoint_def
      zero_jsnum_def one_jsnum_def numeral_jsnum ray_at_def addScaledVector_def)

lemmas reshape_eval =
  reshape_vertex_def Let_def js_get_def js_set_def or_default_def to_number_def
  projectPoint_def distanceToPoint_def addScaledVector_def dot_def falloff_def Math_pow2_def
  computeH_def subVectors_def crossVectors_def normalize_def length3_def falsy_def multiplyScalar_def
  zero_jsnum_def one_jsnum_def numeral_jsnum of_count_def

lemma reshape_loop_vertical_stroke:
  "reshape_loop (Plane (Vector3 (Fin 0) (Fin 0) (Fin 1)) (Fin 0))
     [Vector3 (Fin 0) (Fin 0) (Fin 0), Vector3 (Fin 0) (Fin 3) (Fin 0)] 0 (gvertices ground_20_2) =
   Inr [Fin (- 10), Fin 0, Fin (- 10),  Fin (- 10), Fin 0, Fin 0,  Fin (- 10), Fin 0, Fin 10,
        Fin 0, NaN, Fin (- 10),  Fin 0, NaN, Fin 0,  Fin 0, NaN, Fin 10,
        Fin 10, Fin 0, Fin (- 10),  Fin 10, Fin 0, Fin 0,  Fin 10, Fin 0, Fin 10]"
  by (simp add: ground_20_2_def reshape_loop.simps reshape_eval)

text \<open>
  C5 at a stroke whose first segment is vertical on the screen, on the mesh of
  \<^verbatim>\<open>new Ground(20, 2)\<close>, with the plane \<open>z = 0\<close>: the vertex \<open>(0, 0, 10)\<close> is at distance 10
  from the plane, so its weight is 0, and its old height is 0; \<^verbatim>\<open>computeH\<close> gives NaN for
  it (the two curve points and the vertex have the same plane-local X) and its new height
  is NaN.
\<close>

theorem reshapeGround_zero_weight_NaN:
  "reshapeGround ortho_three [Vector2 (Fin 0) (Fin 0), Vector2 (Fin 0) (Fin (3 / 10))]
     (Vector3 (Fin (- 5)) (Fin 0) (Fin 0)) (Vector3 (Fin 5) (Fin 0) (Fin 0)) still_camera ground_20_2 =
   Inr (ground_20_2 \<lparr> gvertices :=
       [Fin (- 10), Fin 0, Fin (- 10),  Fin (- 10), Fin 0, Fin 0,  Fin (- 10), Fin 0, Fin 10,
        Fin 0, NaN, Fin (- 10),  Fin 0, NaN, Fin 0,  Fin 0, NaN, Fin 10,
        Fin 10, Fin 0, Fin (- 10),  Fin 10, Fin 0, Fin 0,  Fin 10, Fin 0, Fin 10] \<rparr>) \<and>
   falloff (distanceToPoint
      (reshapePlane (Vector3 (Fin (- 5)) (Fin 0) (Fin 0)) (Vector3 (Fin 5) (Fin 0) (Fin 0)))
      (Vector3 (Fin 0) (Fin 0) (Fin 10))) = 0 \<and>
   Ground_new exact (Fin 20) (Fin 2) = Some ground_20_2"
proof -
  have w: "falloff (distanceToPoint (Plane (Vector3 (Fin 0) (Fin 0) (Fin 1)) (Fin 0))
      (Vector3 (Fin 0) (Fin 0) (Fin 10))) = 0"
    by (simp add: falloff_def distanceToPoint_def dot_def Math_pow2_def zero_jsnum_def
        one_jsnum_def numeral_jsnum)
  show ?thesis
    by (simp add: reshapeGround_def Let_def reshapePlane_x_axis vertical_stroke_curve
        reshape_loop_vertical_stroke w Ground_new_20_2)
qed

section \<open>The ribbon mesh of a Billboard\<close>

lemma ribbon_inv_new: "ribbon_inv (Billboard_new dc wo sw)"
  by (simp add: ribbon_inv_def Billboard_new_def)

lemma nextIndex_eq: "of_count (3 * (2 * n)) / 3 = of_count (2 * n)"
  by (simp add: of_count_def numeral_jsnum)

lemma of_count_plus1: "of_count k + 1 = of_count (k + 1)"
  by (simp add: of_count_def one_jsnum_def)

lemma of_count_minus1: "1 \<le> k \<Longrightarrow> of_count k - 1 = of_count (k - 1)"
  by (simp add: of_count_def one_jsnum_def minus_jsnum_def)

lemma of_count_minus2: "2 \<le> k \<Longrightarrow> of_count k - 2 = of_count (k - 2)"
  by (simp add: of_count_def numeral_jsnum minus_jsnum_def)

lemma addNewPoint_reject:
  assumes "screenPath b \<noteq> []" and "\<not> strokeWidth b / 2 < distanceTo p (last (screenPath b))"
  shows "addNewPoint p b = Inr b"
  using assms by (simp add: addNewPoint_def)

lemma addNewPoint_accept:
  assumes "screenPath b \<noteq> []" and "strokeWidth b / 2 < distanceTo p (last (screenPath b))"
  shows "\<exists>v1 v2. addNewPoint p b =
           Inr (b\<lparr> vertices := vertices b @ [v2x v1, v2y v1, - Fin 0.999]
                                         @ [v2x v2, v2y v2, - Fin 0.999],
                    indices := indices b
                      @ [of_count (length (vertices b)) / 3,
                         of_count (length (vertices b)) / 3 + 1,
                         of_count (length (vertices b)) / 3 - 2]
                      @ [of_count (length (vertices b)) / 3 - 1,
                         of_count (length (vertices b)) / 3 - 2,
                         of_count (length (vertices b)) / 3 + 1],
                    screenPath := screenPath b @ [p] \<rparr>)"
  using assms unfolding addNewPoint_def Let_def by (simp del: append.simps) blast

text \<open>One accepted point: two vertices, six indices, none of them forward.\<close>

lemma addNewPoint_step:
  assumes "ribbon_inv b" and "addNewPoint p b = Inr b'"
  shows "b' = b \<or>
     (\<exists>v1 v2 new. 
        screenPath b' = screenPath b @ [p] \<and>
        vertices b' = vertices b @ v1 @ v2 \<and> length v1 = 3 \<and> length v2 = 3 \<and>
        indices b' = indices b @ new \<and> length new = 6 \<and>
        (\<forall>i \<in> set new. \<exists>k. i = of_count k \<and> 3 * k < length (vertices b')))"
proof (cases "strokeWidth b / 2 < distanceTo p (last (screenPath b))")
  case False
  from assms(1) have "screenPath b \<noteq> []" by (simp add: ribbon_inv_def)
  from addNewPoint_reject[OF this False] assms(2) show ?thesis by simp
next
  case True
  let ?n = "length (screenPath b)"
  from assms(1) have ne: "screenPath b \<noteq> []" and lv: "length (vertices b) = 3 * (2 * ?n)"
    by (simp_all add: ribbon_inv_def)
  from ne have n: "1 \<le> ?n" by (simp add: Suc_le_eq)
  have ni: "of_count (length (vertices b)) / 3 = of_count (2 * ?n)"
    unfolding lv by (rule nextIndex_eq)
  have i1: "of_count (2 * ?n) + 1 = of_count (2 * ?n + 1)" by (rule of_count_plus1)
  have i2: "of_count (2 * ?n) - 2 = of_count (2 * ?n - 2)" using n by (intro of_count_minus2) simp
  have i3: "of_count (2 * ?n) - 1 = of_count (2 * ?n - 1)" using n by (intro of_count_minus1) simp
  from addNewPoint_accept[OF ne True] assms(2) obtain v1 v2 where
    b': "b' = b\<lparr> vertices := vertices b @ [v2x v1, v2y v1, - Fin 0.999] @ [v2x v2, v2y v2, - Fin 0.999],
                 indices := indices b @ [of_count (2 * ?n), of_count (2 * ?n + 1), of_count (2 * ?n - 2)]
                    @ [of_count (2 * ?n - 1), of_count (2 * ?n - 2), of_count (2 * ?n + 1)],
                 screenPath := screenPath b @ [p] \<rparr>"
    unfolding ni i1 i2 i3 by auto
  have len: "length (vertices b') = 3 * (2 * ?n + 2)" by (subst b') (simp add: lv)
  have fw: "\<exists>k. i = of_count k \<and> 3 * k < length (vertices b')"
    if "i \<in> set ([of_count (2 * ?n), of_count (2 * ?n + 1), of_count (2 * ?n - 2)]
                    @ [of_count (2 * ?n - 1), of_count (2 * ?n - 2), of_count (2 * ?n + 1)])" for i
  proof -
    from that consider "i = of_count (2 * ?n)" | "i = of_count (2 * ?n + 1)"
      | "i = of_count (2 * ?n - 2)" | "i = of_count (2 * ?n - 1)" by auto
    then show ?thesis unfolding len
      by cases (rule exI[of _ "2 * ?n"], simp, rule exI[of _ "2 * ?n + 1"], simp,
                rule exI[of _ "2 * ?n - 2"], simp, rule exI[of _ "2 * ?n - 1"], simp)
  qed
  define w1 where "w1 = [v2x v1, v2y v1, - Fin 0.999]"
  define w2 where "w2 = [v2x v2, v2y v2, - Fin 0.999]"
  define new where "new = [of_count (2 * ?n), of_count (2 * ?n + 1), of_count (2 * ?n - 2)]
                    @ [of_count (2 * ?n - 1), of_count (2 * ?n - 2), of_count (2 * ?n + 1)]"
  have A: "screenPath b' = screenPath b @ [p]" by (subst b') simp
  have B: "vertices b' = vertices b @ w1 @ w2" unfolding w1_def w2_def by (subst b') simp
  have C: "indices b' = indices b @ new" unfolding new_def by (subst b') simp
  have D: "length w1 = 3" "length w2 = 3" "length new = 6" by (simp_all add: w1_def w2_def new_def)
  have E: "\<forall>i \<in> set new. \<exists>k. i = of_count k \<and> 3 * k < length (vertices b')"
    unfolding new_def using fw by blast
  from A B C D E show ?thesis by blast
qed

lemma ribbon_inv_step:
  assumes "ribbon_inv b" and "addNewPoint p b = Inr b'"
  shows "ribbon_inv b'"
proof -
  from addNewPoint_step[OF assms] consider "b' = b"
    | v1 v2 new where "screenPath b' = screenPath b @ [p]"
        "vertices b' = vertices b @ v1 @ v2" "length v1 = 3" "length v2 = 3"
        "indices b' = indices b @ new" "length new = 6"
        "\<forall>i \<in> set new. \<exists>k. i = of_count k \<and> 3 * k < length (vertices b')"
    by blast
  then show ?thesis
  proof cases
    case 1
    with assms(1) show ?thesis by simp
  next
    case 2
    let ?n = "length (screenPath b)"
    from assms(1) have ne: "screenPath b \<noteq> []" and lv: "length (vertices b) = 3 * (2 * ?n)"
      and li: "length (indices b) = 3 * (2 * (?n - 1))"
      and old: "\<forall>i \<in> set (indices b). \<exists>k. i = of_count k \<and> k < 2 * ?n"
      by (simp_all add: ribbon_inv_def)
    from ne have n: "1 \<le> ?n" by (simp add: Suc_le_eq)
    have lv': "length (vertices b') = 3 * (2 * length (screenPath b'))"
      using 2 lv by simp
    have li': "length (indices b') = 3 * (2 * (length (screenPath b') - 1))"
      using 2 li n by simp
    have "\<exists>k. i = of_count k \<and> k < 2 * length (screenPath b')" if "i \<in> set (indices b')" for i
    proof -
      from that 2(5) have "i \<in> set (indices b) \<or> i \<in> set new" by simp
      then show ?thesis
      proof
        assume "i \<in> set (indices b)"
        with old obtain k where "i = of_count k" "k < 2 * ?n" by blast
        then show ?thesis using 2(1) by (intro exI[of _ k]) simp
      next
        assume "i \<in> set new"
        with 2(7) obtain k where "i = of_count k" "3 * k < length (vertices b')" by blast
        then show ?thesis unfolding lv' by (intro exI[of _ k]) simp
      qed
    qed
    with lv' li' 2(1) show ?thesis by (simp add: ribbon_inv_def)
  qed
qed

lemma ribbon_inv_addNewPoints:
  "ribbon_inv b \<Longrightarrow> addNewPoints ps b = Inr b' \<Longrightarrow> ribbon_inv b'"
proof (induction ps arbitrary: b)
  case Nil
  then show ?case by simp
next
  case (Cons p ps)
  then show ?case by (auto split: sum.splits dest: ribbon_inv_step)
qed

lemma addNewPoint_total: "ribbon_inv b \<Longrightarrow> \<exists>b'. addNewPoint p b = Inr b'"
  by (simp add: addNewPoint_def ribbon_inv_def Let_def)

lemma addNewPoints_total: "ribbon_inv b \<Longrightarrow> \<exists>b'. addNewPoints ps b = Inr b'"
proof (induction ps arbitrary: b)
  case Nil
  then show ?case by simp
next
  case (Cons p ps)
  from addNewPoint_total[OF Cons.prems] obtain b1 where b1: "addNewPoint p b = Inr b1" by blast
  from ribbon_inv_step[OF Cons.prems b1] have "ribbon_inv b1" .
  from Cons.IH[OF this] b1 show ?case by simp
qed

text \<open>
  C3: a Billboard built by its constructor and any sequence of \<^verbatim>\<open>addNewPoint\<close> calls never
  throws, and with \<open>n\<close> accepted points (the initial one counted) it has \<open>2n\<close> vertices and
  \<open>2(n - 1)\<close> triangles; the vertex count is even; every index in the buffer is the number
  of a vertex in the buffer; and whatever a further call appends to the index buffer
  refers to vertices that the call has already appended (or to earlier ones).
\<close>

theorem Billboard_ribbon_counts:
  "\<exists>b. addNewPoints ps (Billboard_new dc wo sw) = Inr b \<and>
        length (vertices b) = 3 * (2 * length (screenPath b)) \<and>
        length (indices b) = 3 * (2 * (length (screenPath b) - 1)) \<and>
        even (length (vertices b) div 3) \<and>
        (\<forall>i \<in> set (indices b). \<exists>k. i = of_count k \<and> 3 * k < length (vertices b)) \<and>
        (\<forall>p. \<exists>b' added new. addNewPoint p b = Inr b' \<and>
            vertices b' = vertices b @ added \<and> indices b' = indices b @ new \<and>
            (\<forall>i \<in> set new. \<exists>k. i = of_count k \<and> 3 * k < length (vertices b')))"
proof -
  from addNewPoints_total[OF ribbon_inv_new] obtain b
    where run: "addNewPoints ps (Billboard_new dc wo sw) = Inr b" by blast
  from ribbon_inv_addNewPoints[OF ribbon_inv_new run] have inv: "ribbon_inv b" .
  then have lv: "length (vertices b) = 3 * (2 * length (screenPath b))"
    and li: "length (indices b) = 3 * (2 * (length (screenPath b) - 1))"
    and ix: "\<forall>i \<in> set (indices b). \<exists>k. i = of_count k \<and> k < 2 * length (screenPath b)"
    by (simp_all add: ribbon_inv_def)
  have ev: "even (length (vertices b) div 3)" unfolding lv by simp
  have ix': "\<forall>i \<in> set (indices b). \<exists>k. i = of_count k \<and> 3 * k < length (vertices b)"
  proof
    fix i assume "i \<in> set (indices b)"
    with ix obtain k where "i = of_count k" "k < 2 * length (screenPath b)" by blast
    then show "\<exists>k. i = of_count k \<and> 3 * k < length (vertices b)"
      unfolding lv by (intro exI[of _ k]) simp
  qed
  have step: "\<exists>b' added new. addNewPoint p b = Inr b' \<and>
            vertices b' = vertices b @ added \<and> indices b' = indices b @ new \<and>
            (\<forall>i \<in> set new. \<exists>k. i = of_count k \<and> 3 * k < length (vertices b'))" for p
  proof -
    from addNewPoint_total[OF inv] obtain b' where b': "addNewPoint p b = Inr b'" by blast
    from addNewPoint_step[OF inv b'] consider "b' = b"
      | v1 v2 new where "vertices b' = vertices b @ v1 @ v2" "indices b' = indices b @ new"
          "\<forall>i \<in> set new. \<exists>k. i = of_count k \<and> 3 * k < length (vertices b')"
      by blast
    then show ?thesis
    proof cases
      case 1
      with b' have "addNewPoint p b = Inr b' \<and> vertices b' = vertices b @ [] \<and>
         indices b' = indices b @ [] \<and>
         (\<forall>i \<in> set []. \<exists>k. i = of_count k \<and> 3 * k < length (vertices b'))" by simp
      then show ?thesis by blast
    next
      case 2
      with b' show ?thesis by blast
    qed
  qed
  from run lv li ev ix' step show ?thesis by blast
qed

lemma addNewPoint_example:
  "addNewPoint (Vector2 (Fin 1) (Fin 0))
     (Billboard_new (Vector2 (Fin 0) (Fin 0)) (Vector3 (Fin 0) (Fin 0) (Fin 0)) (Fin 1)) =
   Inr \<lparr> strokeWidth = Fin 1,
         screenPath = [Vector2 (Fin 0) (Fin 0), Vector2 (Fin 1) (Fin 0)],
         worldOrigin = Vector3 (Fin 0) (Fin 0) (Fin 0),
         vertices = [Fin 0, Fin 0, Fin (- (999 / 1000)), Fin 0, Fin 0, Fin (- (999 / 1000)),
                     Fin 1, Fin (- (1 / 2)), Fin (- (999 / 1000)),
                     Fin 1, Fin (1 / 2), Fin (- (999 / 1000))],
         indices = [Fin 2, Fin 3, Fin 0, Fin 1, Fin 0, Fin 3],
         position = Vector3 (Fin 0) (Fin 0) (Fin 0),
         rotation = Euler (Fin 0) (Fin 0) (Fin 0),
         mesh_matrix = identity \<rparr>"
  by (simp add: addNewPoint_def Billboard_new_def distanceTo_def distanceToSquared_def
      minus_jsnum_def numeral_jsnum Let_def normalize2_def length2_def subVectors2_def falsy_def
      one_jsnum_def zero_jsnum_def multiplyScalar2_def rotateAround_def Math_PI_def
      addVectors2_def of_count_def)

theorem Billboard_ribbon_counts_witness:
  "\<exists>b. addNewPoints [Vector2 (Fin 1) (Fin 0)]
          (Billboard_new (Vector2 (Fin 0) (Fin 0)) (Vector3 (Fin 0) (Fin 0) (Fin 0)) (Fin 1)) = Inr b \<and>
        length (screenPath b) = 2 \<and> length (vertices b) = 3 * (2 * 2) \<and>
        length (indices b) = 3 * (2 * (2 - 1)) \<and>
        indices b = [Fin 2, Fin 3, Fin 0, Fin 1, Fin 0, Fin 3] \<and>
        (\<forall>i \<in> set (indices b). \<exists>k. i = of_count k \<and> 3 * k < length (vertices b))"
  using Billboard_ribbon_counts [of "[Vector2 (Fin 1) (Fin 0)]" "Vector2 (Fin 0) (Fin 0)"
      "Vector3 (Fin 0) (Fin 0) (Fin 0)" "Fin 1"]
  by (simp add: addNewPoint_example)



text \<open>
  Repeating a call: with a stroke width that is not negative, a second call with the
  same finite point changes nothing, whether the first call accepted the point or not.
\<close>

lemma addNewPoint_repeated:
  assumes "ribbon_inv b" and "strokeWidth b = Fin w" and "0 \<le> w"
    and "p = Vector2 (Fin x) (Fin y)" and "addNewPoint p b = Inr b1"
  shows "addNewPoint p b1 = Inr b1"
proof -
  from assms(1) have ne: "screenPath b \<noteq> []" by (simp add: ribbon_inv_def)
  show ?thesis
  proof (cases "strokeWidth b / 2 < distanceTo p (last (screenPath b))")
    case False
    from addNewPoint_reject[OF ne False] assms(5) show ?thesis by simp
  next
    case True
    from addNewPoint_accept[OF ne True] assms(5)
    have sp: "screenPath b1 = screenPath b @ [p]" and sw: "strokeWidth b1 = strokeWidth b"
      by auto
    have d: "distanceTo p p = Fin 0"
      by (simp add: assms(4) distanceTo_def distanceToSquared_def)
    have "\<not> strokeWidth b1 / 2 < distanceTo p (last (screenPath b1))"
      using assms(3) by (simp add: sp sw d assms(2) numeral_jsnum)
    moreover have "screenPath b1 \<noteq> []" by (simp add: sp)
    ultimately show ?thesis by (intro addNewPoint_reject)
  qed
qed

section \<open>The projections of a Billboard\<close>

lemma project_loop_done:
  "length vs \<le> 3 * i \<Longrightarrow> project_loop f i vs = vs"
  by (subst project_loop.simps) (simp add: of_count_def jsnum_3)

lemma project_loop_step:
  assumes "i * 3 + 2 < length vs"
  shows "project_loop f i vs =
     project_loop f (i + 1)
       (vs[i * 3 := v3x (f (Vector2 (vs ! (i * 3)) (vs ! (i * 3 + 1)))),
           i * 3 + 1 := v3y (f (Vector2 (vs ! (i * 3)) (vs ! (i * 3 + 1)))),
           i * 3 + 2 := v3z (f (Vector2 (vs ! (i * 3)) (vs ! (i * 3 + 1))))])"
proof -
  from assms have guard: "of_count i < of_count (length vs) / 3"
    by (simp add: of_count_def jsnum_3)
  from assms show ?thesis
    by (subst project_loop.simps) (simp add: guard Let_def js_get_def js_set_def to_number_def)
qed

lemma project_loop_frame:
  assumes "length vs = 3 * n" and "i \<le> n" and "m = n - i"
  shows "length (project_loop f i vs) = length vs \<and>
      (\<forall>j < i * 3. project_loop f i vs ! j = vs ! j) \<and>
      (\<forall>k. i \<le> k \<and> k < n \<longrightarrow>
         Vector3 (project_loop f i vs ! (k * 3)) (project_loop f i vs ! (k * 3 + 1))
                 (project_loop f i vs ! (k * 3 + 2)) =
         f (Vector2 (vs ! (k * 3)) (vs ! (k * 3 + 1))))"
  using assms
proof (induction m arbitrary: i vs)
  case 0
  then have "i = n" by simp
  with 0 have "project_loop f i vs = vs" by (intro project_loop_done) simp
  with \<open>i = n\<close> show ?case by auto
next
  case (Suc m)
  then have lt: "i < n" and m: "m = n - (i + 1)" by simp_all
  from lt Suc.prems have inr: "i * 3 + 2 < length vs" by simp
  let ?p = "f (Vector2 (vs ! (i * 3)) (vs ! (i * 3 + 1)))"
  let ?vs1 = "vs[i * 3 := v3x ?p, i * 3 + 1 := v3y ?p, i * 3 + 2 := v3z ?p]"
  have unf: "project_loop f i vs = project_loop f (i + 1) ?vs1"
    using inr by (rule project_loop_step)
  have len1: "length ?vs1 = 3 * n" using Suc.prems by simp
  from lt have le1: "i + 1 \<le> n" by simp
  from Suc.IH[OF len1 le1 m]
  have l: "length (project_loop f (i + 1) ?vs1) = length ?vs1"
    and low: "\<forall>j < (i + 1) * 3. project_loop f (i + 1) ?vs1 ! j = ?vs1 ! j"
    and high: "\<forall>k. i + 1 \<le> k \<and> k < n \<longrightarrow>
         Vector3 (project_loop f (i + 1) ?vs1 ! (k * 3)) (project_loop f (i + 1) ?vs1 ! (k * 3 + 1))
                 (project_loop f (i + 1) ?vs1 ! (k * 3 + 2)) =
         f (Vector2 (?vs1 ! (k * 3)) (?vs1 ! (k * 3 + 1)))"
    by blast+
  have other: "?vs1 ! j = vs ! j" if "j < i * 3 \<or> (i + 1) * 3 \<le> j" for j
    using that by auto
  have c1: "\<forall>j < i * 3. project_loop f i vs ! j = vs ! j"
  proof (intro allI impI)
    fix j assume j: "j < i * 3"
    then have "j < (i + 1) * 3" by simp
    with low have "project_loop f (i + 1) ?vs1 ! j = ?vs1 ! j" by simp
    with other[of j] j show "project_loop f i vs ! j = vs ! j" by (simp add: unf)
  qed
  have c2: "Vector3 (project_loop f i vs ! (k * 3)) (project_loop f i vs ! (k * 3 + 1))
                 (project_loop f i vs ! (k * 3 + 2)) =
         f (Vector2 (vs ! (k * 3)) (vs ! (k * 3 + 1)))" if k: "i \<le> k" "k < n" for k
  proof (cases "k = i")
    case True
    have a: "project_loop f (i + 1) ?vs1 ! (i * 3) = ?vs1 ! (i * 3)"
      "project_loop f (i + 1) ?vs1 ! (i * 3 + 1) = ?vs1 ! (i * 3 + 1)"
      "project_loop f (i + 1) ?vs1 ! (i * 3 + 2) = ?vs1 ! (i * 3 + 2)"
      using low by simp_all
    have b: "?vs1 ! (i * 3) = v3x ?p" "?vs1 ! (i * 3 + 1) = v3y ?p" "?vs1 ! (i * 3 + 2) = v3z ?p"
      using inr by simp_all
    show ?thesis unfolding True unf a b by simp
  next
    case False
    with k have k1: "i + 1 \<le> k" by simp
    then have "(i + 1) * 3 \<le> k * 3" "(i + 1) * 3 \<le> k * 3 + 1" by simp_all
    then have "?vs1 ! (k * 3) = vs ! (k * 3)" "?vs1 ! (k * 3 + 1) = vs ! (k * 3 + 1)"
      using other by blast+
    with high k1 k(2) show ?thesis unfolding unf by simp
  qed
  from l len1 Suc.prems(1) c1 c2 show ?case by (simp add: unf)
qed





text \<open>
  C8, as the code has it: in \<^verbatim>\<open>projectToWorld\<close>, on a Billboard of \<open>n \<ge> 1\<close> vertices, the
  position becomes \<open>worldOrigin\<close>, the rotation is the one \<^verbatim>\<open>lookAt\<close> gives towards the
  point under the camera, and every vertex is replaced by the intersection of its camera
  ray with the plane through \<open>worldOrigin\<close> whose normal is the camera's forward direction,
  less \<open>worldOrigin\<close> (a ray without intersection counts as \<open>(0, 0, 0)\<close>). The matrix of the
  mesh is not the identity during or after this: it is the inverse of the rotation
  matrix of the Billboard's new rotation. Indices, accepted path, stroke width and
  \<open>worldOrigin\<close> stay.
\<close>

theorem projectToWorld_vertices:
  assumes "length (vertices b) = 3 * n" and "0 < n"
  shows "position (projectToWorld three camera b) = worldOrigin b \<and>
     rotation (projectToWorld three camera b) =
       lookAt three (worldOrigin b) (Vector3 (v3x (cam_position camera)) 0 (v3z (cam_position camera))) \<and>
     mesh_matrix (projectToWorld three camera b) =
       invert three (makeRotationFromEuler three (rotation (projectToWorld three camera b))) \<and>
     length (vertices (projectToWorld three camera b)) = length (vertices b) \<and>
     (\<forall>k < n.
        Vector3 (vertices (projectToWorld three camera b) ! (k * 3))
                (vertices (projectToWorld three camera b) ! (k * 3 + 1))
                (vertices (projectToWorld three camera b) ! (k * 3 + 2)) =
        subVectors
          (intersectPlane_into_new three
             (setFromCamera three (Vector2 (vertices b ! (k * 3)) (vertices b ! (k * 3 + 1))) camera)
             (setFromNormalAndCoplanarPoint
                (applyQuaternion three (Vector3 0 0 (- 1)) (cam_quaternion camera)) (worldOrigin b)))
          (worldOrigin b)) \<and>
     indices (projectToWorld three camera b) = indices b \<and>
     screenPath (projectToWorld three camera b) = screenPath b \<and>
     strokeWidth (projectToWorld three camera b) = strokeWidth b \<and>
     worldOrigin (projectToWorld three camera b) = worldOrigin b"
proof -
  let ?pl = "setFromNormalAndCoplanarPoint
                (applyQuaternion three (Vector3 0 0 (- 1)) (cam_quaternion camera)) (worldOrigin b)"
  let ?f = "\<lambda>point. subVectors
              (intersectPlane_into_new three (setFromCamera three point camera) ?pl) (worldOrigin b)"
  let ?rot = "lookAt three (worldOrigin b)
                (Vector3 (v3x (cam_position camera)) 0 (v3z (cam_position camera)))"
  from assms have guard: "\<not> of_count (length (vertices b)) < 3"
    by (simp add: of_count_def jsnum_3)
  have eq: "projectToWorld three camera b =
      b\<lparr> position := worldOrigin b, rotation := ?rot,
         mesh_matrix := invert three (makeRotationFromEuler three ?rot),
         vertices := project_loop ?f 0 (vertices b) \<rparr>"
    by (simp add: projectToWorld_def guard Let_def)
  from project_loop_frame[OF assms(1), of 0 n ?f]
  have l: "length (project_loop ?f 0 (vertices b)) = length (vertices b)"
    and v: "\<forall>k < n.
         Vector3 (project_loop ?f 0 (vertices b) ! (k * 3)) (project_loop ?f 0 (vertices b) ! (k * 3 + 1))
                 (project_loop ?f 0 (vertices b) ! (k * 3 + 2)) =
         ?f (Vector2 (vertices b ! (k * 3)) (vertices b ! (k * 3 + 1)))"
    by auto
  show ?thesis unfolding eq using l v by simp
qed

lemma projectToWorld_behind:
  "projectToWorld behind_three behind_camera
     (ribbon_with [Fin 0, Fin 0, - Fin 0.999, Fin 0, Fin 0, - Fin 0.999]) =
   (ribbon_with [Fin 0, Fin 0, Fin 0, Fin 0, Fin 0, Fin 0])
     \<lparr> rotation := Euler (Fin 0) (Fin pi) (Fin 0),
       mesh_matrix := Matrix4 [Fin (- 1), Fin 0, Fin 0, Fin 0,  Fin 0, Fin 1, Fin 0, Fin 0,
                               Fin 0, Fin 0, Fin (- 1), Fin 0,  Fin 0, Fin 0, Fin 0, Fin 1] \<rparr>"
  by (simp add: projectToWorld_def ribbon_with_def Billboard_new_def of_count_def numeral_jsnum
      Let_def behind_three_def behind_camera_def rotationFromEuler_def transpose4_def Math_PI_def
      zero_jsnum_def one_jsnum_def upt_rec[of _ "numeral _"] project_loop.simps js_get_def
      js_set_def to_number_def setFromNormalAndCoplanarPoint_def dot_def
      intersectPlane_into_new_def ray_intersectPlane_def distanceToPlane_def distanceToPoint_def
      ray_at_def addScaledVector_def subVectors_def)

theorem projectToWorld_vertices_witness:
  "length (vertices (ribbon_with [Fin 0, Fin 0, - Fin 0.999, Fin 0, Fin 0, - Fin 0.999])) = 3 * 2 \<and>
   (0::nat) < 2 \<and> (1::nat) < 2 \<and>
   position (projectToWorld behind_three behind_camera
     (ribbon_with [Fin 0, Fin 0, - Fin 0.999, Fin 0, Fin 0, - Fin 0.999])) = Vector3 (Fin 0) (Fin 0) (Fin 0) \<and>
   Vector3 (vertices (projectToWorld behind_three behind_camera
              (ribbon_with [Fin 0, Fin 0, - Fin 0.999, Fin 0, Fin 0, - Fin 0.999])) ! (1 * 3))
           (vertices (projectToWorld behind_three behind_camera
              (ribbon_with [Fin 0, Fin 0, - Fin 0.999, Fin 0, Fin 0, - Fin 0.999])) ! (1 * 3 + 1))
           (vertices (projectToWorld behind_three behind_camera
              (ribbon_with [Fin 0, Fin 0, - Fin 0.999, Fin 0, Fin 0, - Fin 0.999])) ! (1 * 3 + 2))
     = Vector3 (Fin 0) (Fin 0) (Fin 0)"
proof -
  let ?b = "ribbon_with [Fin 0, Fin 0, - Fin 0.999, Fin 0, Fin 0, - Fin 0.999]"
  have h: "length (vertices ?b) = 3 * 2" "(0::nat) < 2" "(1::nat) < 2"
    by (simp_all add: ribbon_with_def)
  note t = projectToWorld_vertices [OF h(1) h(2), of behind_three behind_camera]
  from t have p: "position (projectToWorld behind_three behind_camera ?b) = worldOrigin ?b"
    by blast
  from t h(3) have v: "Vector3 (vertices (projectToWorld behind_three behind_camera ?b) ! (1 * 3))
           (vertices (projectToWorld behind_three behind_camera ?b) ! (1 * 3 + 1))
           (vertices (projectToWorld behind_three behind_camera ?b) ! (1 * 3 + 2)) =
        subVectors
          (intersectPlane_into_new behind_three
             (setFromCamera behind_three (Vector2 (vertices ?b ! (1 * 3)) (vertices ?b ! (1 * 3 + 1)))
                behind_camera)
             (setFromNormalAndCoplanarPoint
                (applyQuaternion behind_three (Vector3 0 0 (- 1)) (cam_quaternion behind_camera))
                (worldOrigin ?b)))
          (worldOrigin ?b)"
    by blast
  have "position (projectToWorld behind_three behind_camera ?b) = Vector3 (Fin 0) (Fin 0) (Fin 0)"
    unfolding p by (simp add: ribbon_with_def Billboard_new_def)
  moreover have "Vector3 (vertices (projectToWorld behind_three behind_camera ?b) ! (1 * 3))
           (vertices (projectToWorld behind_three behind_camera ?b) ! (1 * 3 + 1))
           (vertices (projectToWorld behind_three behind_camera ?b) ! (1 * 3 + 2))
     = Vector3 (Fin 0) (Fin 0) (Fin 0)"
    unfolding v
    by (simp add: ribbon_with_def Billboard_new_def behind_three_def behind_camera_def
        zero_jsnum_def one_jsnum_def numeral_jsnum setFromNormalAndCoplanarPoint_def dot_def
        intersectPlane_into_new_def ray_intersectPlane_def distanceToPlane_def distanceToPoint_def
        ray_at_def addScaledVector_def subVectors_def Let_def)
  ultimately show ?thesis using h by blast
qed

text \<open>
  The claim C8 as stated fails in its second half: with the camera behind the Billboard,
  after \<^verbatim>\<open>projectToWorld\<close> the matrix of the mesh is the half turn about Y, not the identity.
\<close>

theorem projectToWorld_matrix_counterexample:
  "mesh_matrix (projectToWorld behind_three behind_camera
      (ribbon_with [Fin 0, Fin 0, - Fin 0.999, Fin 0, Fin 0, - Fin 0.999])) \<noteq> identity"
  unfolding projectToWorld_behind
  by (simp add: identity_def zero_jsnum_def one_jsnum_def)

end
